theory Spec2Isabelle
  imports Main
begin

section \<open>The ScholarshipHub contract\<close>

text \<open>
  A shallow embedding of the Solidity contract \<^verbatim>\<open>ScholarshipHub\<close> (pragma 0.8.20).
  \<^item> \<^verbatim>\<open>uint256\<close> is \<open>nat\<close>; the checked arithmetic of Solidity 0.8 is written out: an
    addition that would pass \<open>max_uint256\<close> and a subtraction that would go below zero
    revert with \<open>Panic\<close>.
  \<^item> \<^verbatim>\<open>address\<close> is \<open>nat\<close>, \<^verbatim>\<open>address(0)\<close> is \<open>0\<close>.
  \<^item> A Solidity \<^verbatim>\<open>mapping\<close> is a total function whose default is the all-zero value.
  \<^item> A \<^verbatim>\<open>require\<close> that fails is \<open>Inl\<close> of the error named after its message; a
    reverted call leaves the storage and the balance as they were (see \<open>transact\<close>).
  \<^item> \<^verbatim>\<open>address(this).balance\<close> is the field \<open>balance\<close> of the state.
  \<^item> An Ether transfer \<^verbatim>\<open>payable(a).call{value: v}("")\<close> hands control to the recipient.
    It fails when the contract holds less than \<open>v\<close> or the recipient's code reverts
    (\<open>receives\<close> is false). While it has control the recipient's code may call the
    contract again, any entry point, any number of times, directly or through other
    contracts: these nested calls are the argument \<open>payee\<close> of \<open>claimScholarship\<close> and
    \<open>withdrawUnclaimedFunds\<close>, the effect of the recipient's code on the contract's state.
  \<^item> The events the contract emits are the list \<open>log\<close> of the state, oldest first.
\<close>

type_synonym address = nat

definition max_uint256 :: nat where
  "max_uint256 = 2 ^ 256 - 1"

subsection \<open>Data structures\<close>

record Student =
  studentId :: nat
  walletAddress :: address
  applicationHash :: string
  isEligible :: bool
  hasClaimedScholarship :: bool
  verificationTimestamp :: nat

text \<open>The field \<^verbatim>\<open>id\<close> of the source is \<open>id_s\<close> here (\<open>id\<close> is the identity function of HOL).\<close>

record Scholarship =
  id_s :: nat
  title :: string
  description :: string
  totalAmount :: nat
  remainingAmount :: nat
  claimAmount :: nat
  beneficiaryCount :: nat
  claimsProcessed :: nat
  creator :: address
  createdAt :: nat
  active :: bool

text \<open>The fields of \<^verbatim>\<open>VerificationRecord\<close> carry the prefix \<open>vr_\<close>: the source reuses the
  names \<^verbatim>\<open>studentId\<close> and \<^verbatim>\<open>isEligible\<close> of \<^verbatim>\<open>Student\<close>.\<close>

record VerificationRecord =
  vr_student :: address
  vr_studentId :: nat
  vr_isEligible :: bool
  vr_reason :: string
  vr_timestamp :: nat
  vr_verifier :: address

text \<open>The events of the source. \<^verbatim>\<open>AdminAdded\<close> and \<^verbatim>\<open>AdminRemoved\<close> are declared there and
  never emitted.\<close>

datatype event =
    StudentRegistered nat address string
  | EligibilityVerified address nat bool string nat
  | ScholarshipCreated nat string nat nat address
  | ScholarshipClaimed address nat nat nat
  | FundsDeposited address nat
  | FundsWithdrawn address nat
  | OracleAddressUpdated address
  | AdminAdded address
  | AdminRemoved address

record state =
  owner :: address
  oracleAddress :: address
  scholarshipCounter :: nat
  totalFunds :: nat
  students :: "address \<Rightarrow> Student"
  studentIdToWallet :: "nat \<Rightarrow> address"
  scholarships :: "nat \<Rightarrow> Scholarship"
  verificationHistory :: "address \<Rightarrow> VerificationRecord list"
  claimedAmounts :: "address \<Rightarrow> nat"
  balance :: nat
  log :: "event list"

text \<open>What a call sees of its transaction: \<^verbatim>\<open>msg.sender\<close>, \<^verbatim>\<open>block.timestamp\<close>, and
  whether the sender's code accepts a plain Ether transfer (it does not revert).
  \<^verbatim>\<open>msg.value\<close> is an argument of the two payable entry points only (\<open>createScholarship\<close>,
  \<open>receive\<close>).\<close>

record env =
  sender :: address
  timestamp :: nat
  receives :: bool

text \<open>One constructor per \<^verbatim>\<open>require\<close> message of the source, and \<open>Panic\<close> for checked
  arithmetic.\<close>

datatype error =
    OnlyOwner                              \<comment> \<open>"Only owner can call this function"\<close>
  | OnlyOracle                             \<comment> \<open>"Only oracle can call this function"\<close>
  | ScholarshipDoesNotExist                \<comment> \<open>"Scholarship does not exist"\<close>
  | StudentNotEligible                     \<comment> \<open>"Student is not verified as eligible"\<close>
  | InvalidOracleAddress                   \<comment> \<open>"Invalid oracle address"\<close>
  | InvalidStudentID                       \<comment> \<open>"Invalid student ID"\<close>
  | StudentIDAlreadyRegistered             \<comment> \<open>"Student ID already registered"\<close>
  | WalletAlreadyRegistered                \<comment> \<open>"Wallet already registered"\<close>
  | ApplicationHashEmpty                   \<comment> \<open>"Application hash cannot be empty"\<close>
  | InvalidStudentAddress                  \<comment> \<open>"Invalid student address"\<close>
  | StudentIDMismatch                      \<comment> \<open>"Student ID mismatch"\<close>
  | MustDepositFunds                       \<comment> \<open>"Must deposit funds"\<close>
  | BeneficiaryCountZero                   \<comment> \<open>"Beneficiary count must be greater than 0"\<close>
  | TitleEmpty                             \<comment> \<open>"Title cannot be empty"\<close>
  | InsufficientFundsForBeneficiaryCount   \<comment> \<open>"Insufficient funds for beneficiary count"\<close>
  | AlreadyClaimed                         \<comment> \<open>"Student has already claimed scholarship"\<close>
  | AllFundsDistributed                    \<comment> \<open>"All funds have been distributed"\<close>
  | InsufficientScholarshipFunds           \<comment> \<open>"Insufficient scholarship funds"\<close>
  | TransferFailed                         \<comment> \<open>"Transfer failed"\<close>
  | InsufficientBalance                    \<comment> \<open>"Insufficient balance"\<close>
  | WithdrawalFailed                       \<comment> \<open>"Withdrawal failed"\<close>
  | Panic                                  \<comment> \<open>arithmetic overflow or underflow\<close>

subsection \<open>Storage defaults and the constructor\<close>

definition zeroStudent :: Student where
  "zeroStudent = \<lparr> studentId = 0, walletAddress = 0, applicationHash = [],
     isEligible = False, hasClaimedScholarship = False, verificationTimestamp = 0 \<rparr>"

definition zeroScholarship :: Scholarship where
  "zeroScholarship = \<lparr> id_s = 0, title = [], description = [], totalAmount = 0,
     remainingAmount = 0, claimAmount = 0, beneficiaryCount = 0, claimsProcessed = 0,
     creator = 0, createdAt = 0, active = False \<rparr>"

definition constructor :: "address \<Rightarrow> state" where
  "constructor deployer = \<lparr> owner = deployer, oracleAddress = deployer,
     scholarshipCounter = 0, totalFunds = 0,
     students = (\<lambda>_. zeroStudent), studentIdToWallet = (\<lambda>_. 0),
     scholarships = (\<lambda>_. zeroScholarship), verificationHistory = (\<lambda>_. []),
     claimedAmounts = (\<lambda>_. 0), balance = 0, log = [] \<rparr>"

subsection \<open>Operations\<close>

definition setOracleAddress :: "env \<Rightarrow> address \<Rightarrow> state \<Rightarrow> error + state" where
  "setOracleAddress e newOracle s =
     (if sender e \<noteq> owner s then Inl OnlyOwner
      else if newOracle = 0 then Inl InvalidOracleAddress
      else Inr (s\<lparr>oracleAddress := newOracle,
                  log := log s @ [OracleAddressUpdated newOracle]\<rparr>))"

definition registerStudent :: "env \<Rightarrow> nat \<Rightarrow> string \<Rightarrow> state \<Rightarrow> error + state" where
  "registerStudent e sid hash s =
     (if \<not> 0 < sid then Inl InvalidStudentID
      else if studentIdToWallet s sid \<noteq> 0 then Inl StudentIDAlreadyRegistered
      else if studentId (students s (sender e)) \<noteq> 0 then Inl WalletAlreadyRegistered
      else if \<not> 0 < length hash then Inl ApplicationHashEmpty
      else Inr (s\<lparr>
        students := (students s)(sender e :=
          \<lparr> studentId = sid, walletAddress = sender e, applicationHash = hash,
            isEligible = False, hasClaimedScholarship = False, verificationTimestamp = 0 \<rparr>),
        studentIdToWallet := (studentIdToWallet s)(sid := sender e),
        log := log s @ [StudentRegistered sid (sender e) hash]\<rparr>))"

definition verifyEligibility ::
  "env \<Rightarrow> address \<Rightarrow> nat \<Rightarrow> bool \<Rightarrow> string \<Rightarrow> state \<Rightarrow> error + state" where
  "verifyEligibility e studentAddress sid eligible reason s =
     (if sender e \<noteq> oracleAddress s then Inl OnlyOracle
      else if studentAddress = 0 then Inl InvalidStudentAddress
      else if studentId (students s studentAddress) \<noteq> sid then Inl StudentIDMismatch
      else Inr (s\<lparr>
        students := (students s)(studentAddress :=
          (students s studentAddress)\<lparr>isEligible := eligible,
             verificationTimestamp := timestamp e\<rparr>),
        verificationHistory := (verificationHistory s)(studentAddress :=
          verificationHistory s studentAddress @
            [\<lparr> vr_student = studentAddress, vr_studentId = sid, vr_isEligible = eligible,
               vr_reason = reason, vr_timestamp = timestamp e, vr_verifier = sender e \<rparr>]),
        log := log s @ [EligibilityVerified studentAddress sid eligible reason (timestamp e)]\<rparr>))"

text \<open>\<open>msg_value\<close> is the Ether sent with the call; it is part of the contract's balance
  while the body runs and stays there unless the call reverts.\<close>

definition createScholarship ::
  "env \<Rightarrow> nat \<Rightarrow> string \<Rightarrow> nat \<Rightarrow> string \<Rightarrow> state \<Rightarrow> error + state" where
  "createScholarship e msg_value ttl count descr s =
     (if sender e \<noteq> owner s then Inl OnlyOwner
      else if \<not> 0 < msg_value then Inl MustDepositFunds
      else if \<not> 0 < count then Inl BeneficiaryCountZero
      else if \<not> 0 < length ttl then Inl TitleEmpty
      else let claim = msg_value div count in
        if \<not> 0 < claim then Inl InsufficientFundsForBeneficiaryCount
        else if max_uint256 < totalFunds s + msg_value then Inl Panic
        else if max_uint256 < scholarshipCounter s + 1 then Inl Panic
        else Inr (s\<lparr>
          scholarships := (scholarships s)(scholarshipCounter s :=
            \<lparr> id_s = scholarshipCounter s, title = ttl, description = descr,
              totalAmount = msg_value, remainingAmount = msg_value, claimAmount = claim,
              beneficiaryCount = count, claimsProcessed = 0, creator = sender e,
              createdAt = timestamp e, active = True \<rparr>),
          totalFunds := totalFunds s + msg_value,
          scholarshipCounter := scholarshipCounter s + 1,
          balance := balance s + msg_value,
          log := log s @ [ScholarshipCreated (scholarshipCounter s) ttl msg_value claim
                            (sender e)]\<rparr>))"

text \<open>
  The writes of \<^verbatim>\<open>claimScholarship\<close> that come before the transfer (the claimed flag, the
  two fields of the scholarship, \<^verbatim>\<open>claimedAmounts\<close>), and the Ether leaving the contract:
  the state the recipient's code sees when it gets control.
\<close>

definition claim_effects :: "env \<Rightarrow> nat \<Rightarrow> state \<Rightarrow> state" where
  "claim_effects e scholarshipId s =
     (let student = students s (sender e); scholarship = scholarships s scholarshipId in
      s\<lparr>
        students := (students s)(sender e := student\<lparr>hasClaimedScholarship := True\<rparr>),
        scholarships := (scholarships s)(scholarshipId :=
          scholarship\<lparr>claimsProcessed := claimsProcessed scholarship + 1,
            remainingAmount := remainingAmount scholarship - claimAmount scholarship\<rparr>),
        claimedAmounts := (claimedAmounts s)(sender e :=
          claimedAmounts s (sender e) + claimAmount scholarship),
        balance := balance s - claimAmount scholarship\<rparr>)"

text \<open>
  The modifiers \<^verbatim>\<open>scholarshipExists\<close> and \<^verbatim>\<open>studentIsEligible\<close> run first, in the order the
  function header lists them, then the three \<^verbatim>\<open>require\<close>s of the body. Then come the
  writes and the transfer (\<open>claim_effects\<close>), during which the recipient's code runs
  (\<open>payee\<close>). When it has returned, \<^verbatim>\<open>totalFunds\<close> is lowered and the event emitted, both
  reading the share from storage again.
\<close>

definition claimScholarship ::
  "env \<Rightarrow> nat \<Rightarrow> (state \<Rightarrow> state) \<Rightarrow> state \<Rightarrow> error + state" where
  "claimScholarship e scholarshipId payee s =
     (let student = students s (sender e); scholarship = scholarships s scholarshipId in
      if \<not> (scholarshipId < scholarshipCounter s \<and> active scholarship)
        then Inl ScholarshipDoesNotExist
      else if \<not> isEligible student then Inl StudentNotEligible
      else if hasClaimedScholarship student then Inl AlreadyClaimed
      else if \<not> claimsProcessed scholarship < beneficiaryCount scholarship
        then Inl AllFundsDistributed
      else if \<not> claimAmount scholarship \<le> remainingAmount scholarship
        then Inl InsufficientScholarshipFunds
      else if max_uint256 < claimsProcessed scholarship + 1 then Inl Panic
      else if max_uint256 < claimedAmounts s (sender e) + claimAmount scholarship
        then Inl Panic
      else if \<not> (claimAmount scholarship \<le> balance s \<and> receives e) then Inl TransferFailed
      else let
        s1 = payee (claim_effects e scholarshipId s);
        amount = claimAmount (scholarships s1 scholarshipId)
      in if totalFunds s1 < amount then Inl Panic
         else Inr (s1\<lparr>totalFunds := totalFunds s1 - amount,
                     log := log s1 @ [ScholarshipClaimed (sender e) scholarshipId amount
                                        (timestamp e)]\<rparr>))"

text \<open>The Ether goes to \<^verbatim>\<open>owner\<close>, who is the sender; the owner's code gets control before the
  event is emitted.\<close>

definition withdrawUnclaimedFunds ::
  "env \<Rightarrow> nat \<Rightarrow> (state \<Rightarrow> state) \<Rightarrow> state \<Rightarrow> error + state" where
  "withdrawUnclaimedFunds e amount payee s =
     (if sender e \<noteq> owner s then Inl OnlyOwner
      else if \<not> amount \<le> balance s then Inl InsufficientBalance
      else if \<not> receives e then Inl WithdrawalFailed
      else let s1 = payee (s\<lparr>balance := balance s - amount\<rparr>)
        in Inr (s1\<lparr>log := log s1 @ [FundsWithdrawn (owner s1) amount]\<rparr>))"

text \<open>The \<^verbatim>\<open>receive\<close> function: a plain Ether transfer to the contract.\<close>

definition receive :: "env \<Rightarrow> nat \<Rightarrow> state \<Rightarrow> error + state" where
  "receive e msg_value s =
     (if max_uint256 < totalFunds s + msg_value then Inl Panic
      else Inr (s\<lparr>totalFunds := totalFunds s + msg_value,
                  balance := balance s + msg_value,
                  log := log s @ [FundsDeposited (sender e) msg_value]\<rparr>))"

subsection \<open>Transactions and reachable states\<close>

text \<open>
  A call of an entry point. A claim and a withdrawal carry the list of calls that the
  recipient's code makes into the contract while it holds the Ether just sent (the empty
  list for an account without code). Each nested call commits or reverts on its own, as
  a call made through \<^verbatim>\<open>address.call\<close> or \<^verbatim>\<open>try\<close> does; a recipient that lets a failure
  propagate reverts itself, which is \<open>receives = False\<close>.
\<close>

datatype call =
    SetOracleAddress env address
  | RegisterStudent env nat string
  | VerifyEligibility env address nat bool string
  | CreateScholarship env nat string nat string
  | ClaimScholarship env nat "call list"
  | WithdrawUnclaimedFunds env nat "call list"
  | Receive env nat

text \<open>\<open>run s cs\<close> makes the calls \<open>cs\<close> one after the other, from the state \<open>s\<close>: a call
  that reverts leaves the state it found.\<close>

fun dispatch :: "call \<Rightarrow> state \<Rightarrow> error + state"
  and run :: "state \<Rightarrow> call list \<Rightarrow> state" where
  "dispatch (SetOracleAddress e a) s = setOracleAddress e a s"
| "dispatch (RegisterStudent e sid h) s = registerStudent e sid h s"
| "dispatch (VerifyEligibility e a sid b r) s = verifyEligibility e a sid b r s"
| "dispatch (CreateScholarship e v t n d) s = createScholarship e v t n d s"
| "dispatch (ClaimScholarship e i cb) s = claimScholarship e i (\<lambda>t. run t cb) s"
| "dispatch (WithdrawUnclaimedFunds e n cb) s = withdrawUnclaimedFunds e n (\<lambda>t. run t cb) s"
| "dispatch (Receive e v) s = receive e v s"
| "run s [] = s"
| "run s (c # cs) = run (case dispatch c s of Inl err \<Rightarrow> s | Inr s' \<Rightarrow> s') cs"

text \<open>The calls that send Ether out of the contract.\<close>

fun transfers :: "call \<Rightarrow> bool" where
  "transfers (ClaimScholarship e i cb) = True"
| "transfers (WithdrawUnclaimedFunds e n cb) = True"
| "transfers c = False"

text \<open>A transaction either commits the new state or reverts to the old one.\<close>

definition transact :: "state \<Rightarrow> call \<Rightarrow> state" where
  "transact s c = (case dispatch c s of Inl err \<Rightarrow> s | Inr s' \<Rightarrow> s')"

text \<open>No call, nested ones included, has \<^verbatim>\<open>address(0)\<close> as its sender.\<close>

fun senders_ok :: "call \<Rightarrow> bool" where
  "senders_ok (SetOracleAddress e a) = (sender e \<noteq> 0)"
| "senders_ok (RegisterStudent e sid h) = (sender e \<noteq> 0)"
| "senders_ok (VerifyEligibility e a sid b r) = (sender e \<noteq> 0)"
| "senders_ok (CreateScholarship e v t n d) = (sender e \<noteq> 0)"
| "senders_ok (ClaimScholarship e i cb) = (sender e \<noteq> 0 \<and> (\<forall>c \<in> set cb. senders_ok c))"
| "senders_ok (WithdrawUnclaimedFunds e n cb) =
     (sender e \<noteq> 0 \<and> (\<forall>c \<in> set cb. senders_ok c))"
| "senders_ok (Receive e v) = (sender e \<noteq> 0)"

text \<open>The states the contract can be in between transactions: deployed by an account,
  then any transactions.\<close>

inductive reachable :: "state \<Rightarrow> bool" where
  deployed: "deployer \<noteq> 0 \<Longrightarrow> reachable (constructor deployer)"
| transacted: "reachable s \<Longrightarrow> senders_ok c \<Longrightarrow> reachable (transact s c)"

subsection \<open>Reading the log\<close>

text \<open>\<open>disbursed a i s\<close>: how many times the log records a payment to account \<open>a\<close> from
  scholarship \<open>i\<close>. \<open>withdrawn s\<close>: the Ether the log records as withdrawn.\<close>

fun claim_of :: "address \<Rightarrow> nat \<Rightarrow> event \<Rightarrow> bool" where
  "claim_of a i (ScholarshipClaimed student scholarshipId amount time) =
     (student = a \<and> scholarshipId = i)"
| "claim_of a i ev = False"

definition disbursed :: "address \<Rightarrow> nat \<Rightarrow> state \<Rightarrow> nat" where
  "disbursed a i s = length (filter (claim_of a i) (log s))"

fun withdrawal :: "event \<Rightarrow> nat" where
  "withdrawal (FundsWithdrawn recipient amount) = amount"
| "withdrawal ev = 0"

definition withdrawn :: "state \<Rightarrow> nat" where
  "withdrawn s = sum_list (map withdrawal (log s))"

subsection \<open>Invariants\<close>

text \<open>The bookkeeping of one scholarship: what is left plus what was paid is what was
  deposited, no more claims than beneficiaries, and the deposit covers a share for each
  beneficiary.\<close>

definition pool_ok :: "Scholarship \<Rightarrow> bool" where
  "pool_ok p \<longleftrightarrow>
     remainingAmount p + claimsProcessed p * claimAmount p = totalAmount p \<and>
     claimsProcessed p \<le> beneficiaryCount p \<and>
     claimAmount p * beneficiaryCount p \<le> totalAmount p"

definition pools_ok :: "state \<Rightarrow> bool" where
  "pools_ok s \<longleftrightarrow> (\<forall>i. pool_ok (scholarships s i))"

text \<open>The two registration mappings mirror each other.\<close>

definition registry_ok :: "state \<Rightarrow> bool" where
  "registry_ok s \<longleftrightarrow>
     (\<forall>a. studentId (students s a) \<noteq> 0 \<longrightarrow>
        a \<noteq> 0 \<and> studentIdToWallet s (studentId (students s a)) = a) \<and>
     (\<forall>i. studentIdToWallet s i \<noteq> 0 \<longrightarrow>
        i \<noteq> 0 \<and> studentId (students s (studentIdToWallet s i)) = i)"

text \<open>A registered account whose claimed flag is set.\<close>

definition flag_locked :: "address \<Rightarrow> state \<Rightarrow> bool" where
  "flag_locked a s \<longleftrightarrow>
     studentId (students s a) \<noteq> 0 \<and> hasClaimedScholarship (students s a)"

text \<open>What the log records for a pair, plus one while the account's flag is clear: the
  most the log can ever record for the pair of a registered account.\<close>

definition owed :: "address \<Rightarrow> nat \<Rightarrow> state \<Rightarrow> nat" where
  "owed a i s = disbursed a i s + (if hasClaimedScholarship (students s a) then 0 else 1)"

text \<open>Relations between the state before and the state after some calls: each says that
  a property of the state before is kept.\<close>

definition keeps_pools :: "state \<Rightarrow> state \<Rightarrow> bool" where
  "keeps_pools s s' \<longleftrightarrow> (pools_ok s \<longrightarrow> pools_ok s')"

definition keeps_registry :: "state \<Rightarrow> state \<Rightarrow> bool" where
  "keeps_registry s s' \<longleftrightarrow> (registry_ok s \<longrightarrow> registry_ok s')"

definition keeps_pool :: "nat \<Rightarrow> state \<Rightarrow> state \<Rightarrow> bool" where
  "keeps_pool i s s' \<longleftrightarrow>
     (i < scholarshipCounter s \<and> active (scholarships s i)
        \<longrightarrow> i < scholarshipCounter s' \<and> active (scholarships s' i))"

definition keeps_flag :: "address \<Rightarrow> state \<Rightarrow> state \<Rightarrow> bool" where
  "keeps_flag a s s' \<longleftrightarrow>
     (flag_locked a s \<longrightarrow> flag_locked a s' \<and> (\<forall>i. disbursed a i s' = disbursed a i s))"

definition pays_once :: "address \<Rightarrow> nat \<Rightarrow> state \<Rightarrow> state \<Rightarrow> bool" where
  "pays_once a i s s' \<longleftrightarrow>
     (studentId (students s a) \<noteq> 0 \<longrightarrow>
        studentId (students s' a) \<noteq> 0
        \<and> disbursed a i s \<le> disbursed a i s' \<and> owed a i s' \<le> owed a i s)"

definition extends_history :: "address \<Rightarrow> state \<Rightarrow> state \<Rightarrow> bool" where
  "extends_history a s s' \<longleftrightarrow>
     (\<exists>ys. verificationHistory s' a = verificationHistory s a @ ys)"

subsection \<open>Example transactions\<close>

definition admin :: env where
  "admin = \<lparr> sender = 1, timestamp = 1000, receives = True \<rparr>"

definition alice :: env where
  "alice = \<lparr> sender = 2, timestamp = 2000, receives = True \<rparr>"

definition bob :: env where
  "bob = \<lparr> sender = 3, timestamp = 3000, receives = True \<rparr>"

definition merit :: call where
  "merit = CreateScholarship admin 100 ''Merit'' 3 ''Top students''"

text \<open>The owner (who is the oracle) funds a scholarship of 100 for 3 students; Alice
  registers with student id 7 and is verified.\<close>

definition ready_calls :: "call list" where
  "ready_calls = [merit, RegisterStudent alice 7 ''QmAlice'',
                  VerifyEligibility admin 2 7 True ''GPA: 3.8'']"

definition ready :: state where
  "ready = run (constructor 1) ready_calls"

text \<open>Alice claims; her account has no code, so nothing is called back.\<close>

definition claimed :: state where
  "claimed = transact ready (ClaimScholarship alice 0 [])"

text \<open>Alice claims, then the oracle revokes her eligibility.\<close>

definition revoke_calls :: "call list" where
  "revoke_calls = ready_calls @ [ClaimScholarship alice 0 [],
                  VerifyEligibility admin 2 7 False ''Left the programme'']"

text \<open>A scholarship for one student, which Alice claims.\<close>

definition single_calls :: "call list" where
  "single_calls = [CreateScholarship admin 50 ''Single'' 1 ''One student'',
                   RegisterStudent alice 7 ''QmAlice'',
                   VerifyEligibility admin 2 7 True ''GPA: 3.8'',
                   ClaimScholarship alice 0 []]"

definition exhausted :: state where
  "exhausted = run (constructor 1) single_calls"

text \<open>Two scholarships, and Alice verified; then Alice claims the first.\<close>

definition two_pool_calls :: "call list" where
  "two_pool_calls = [merit, CreateScholarship admin 50 ''Need'' 2 ''Low income'',
                     RegisterStudent alice 7 ''QmAlice'',
                     VerifyEligibility admin 2 7 True ''GPA: 3.8'']"

definition two_pools :: state where
  "two_pools = run (constructor 1) two_pool_calls"

definition one_claimed :: state where
  "one_claimed = run (constructor 1) (two_pool_calls @ [ClaimScholarship alice 0 []])"

text \<open>Alice's account as a contract: while it is paid from scholarship 0 it tries to
  register again and to claim scholarship 1.\<close>

definition stubborn :: call where
  "stubborn = ClaimScholarship alice 0
     [RegisterStudent alice 8 ''QmAgain'', ClaimScholarship alice 1 []]"

text \<open>Alice claims the second scholarship first.\<close>

definition other_claimed :: state where
  "other_claimed = run (constructor 1) (two_pool_calls @ [ClaimScholarship alice 1 []])"

text \<open>One scholarship, then the owner withdraws the whole balance.\<close>

definition drain_calls :: "call list" where
  "drain_calls = [merit, WithdrawUnclaimedFunds admin 100 []]"

definition funded :: state where
  "funded = run (constructor 1) [merit]"

text \<open>The owner is a contract that, when it receives the 40 it withdraws, withdraws 40
  again.\<close>

definition greedy :: call where
  "greedy = WithdrawUnclaimedFunds admin 40 [WithdrawUnclaimedFunds admin 40 []]"

text \<open>The oracle verifies Bob's address with student id 0 before Bob has registered; Bob
  registers afterwards.\<close>

definition late_calls :: "call list" where
  "late_calls = [VerifyEligibility admin 3 0 True ''GPA: 3.9'',
                 RegisterStudent bob 9 ''QmBob'']"

definition replay_calls :: "call list" where
  "replay_calls = [merit, VerifyEligibility admin 3 0 True ''GPA: 3.9'',
                   ClaimScholarship bob 0 [], RegisterStudent bob 9 ''QmBob'',
                   VerifyEligibility admin 3 9 True ''GPA: 3.9'', ClaimScholarship bob 0 []]"

text \<open>The same, with Bob a contract that registers while it receives its share.\<close>

definition reenter_calls :: "call list" where
  "reenter_calls = [merit, VerifyEligibility admin 3 0 True ''GPA: 3.9'',
                    ClaimScholarship bob 0 [RegisterStudent bob 9 ''QmBob'']]"

section \<open>Properties\<close>

lemmas op_defs = setOracleAddress_def registerStudent_def verifyEligibility_def
  createScholarship_def receive_def

lemmas run_defs = transact_def op_defs claimScholarship_def claim_effects_def
  withdrawUnclaimedFunds_def constructor_def zeroStudent_def zeroScholarship_def
  admin_def alice_def bob_def merit_def max_uint256_def Let_def

subsection \<open>Transactions\<close>

lemma transact_cases:
  obtains (reverted) err where "dispatch c s = Inl err" "transact s c = s"
        | (committed) s' where "dispatch c s = Inr s'" "transact s c = s'"
  by (cases "dispatch c s") (auto simp: transact_def)

lemma dispatch_committed: "\<not> isl (dispatch c s) \<Longrightarrow> dispatch c s = Inr (transact s c)"
  by (cases "dispatch c s") (auto simp: transact_def)

lemma run_Cons: "run s (c # cs) = run (transact s c) cs"
  by (simp add: transact_def)

lemma claimScholarship_Inr:
  assumes "claimScholarship e i payee s = Inr s'"
  shows "i < scholarshipCounter s \<and> active (scholarships s i)
       \<and> isEligible (students s (sender e))
       \<and> \<not> hasClaimedScholarship (students s (sender e))
       \<and> claimsProcessed (scholarships s i) < beneficiaryCount (scholarships s i)
       \<and> claimAmount (scholarships s i) \<le> remainingAmount (scholarships s i)
       \<and> claimAmount (scholarships s i) \<le> balance s \<and> receives e
       \<and> s' = (payee (claim_effects e i s))\<lparr>
            totalFunds := totalFunds (payee (claim_effects e i s))
              - claimAmount (scholarships (payee (claim_effects e i s)) i),
            log := log (payee (claim_effects e i s))
              @ [ScholarshipClaimed (sender e) i
                   (claimAmount (scholarships (payee (claim_effects e i s)) i))
                   (timestamp e)]\<rparr>"
  using assms by (simp add: claimScholarship_def Let_def split: if_splits)

lemma withdrawUnclaimedFunds_Inr:
  assumes "withdrawUnclaimedFunds e n payee s = Inr s'"
  shows "sender e = owner s \<and> n \<le> balance s \<and> receives e
       \<and> s' = (payee (s\<lparr>balance := balance s - n\<rparr>))\<lparr>
            log := log (payee (s\<lparr>balance := balance s - n\<rparr>))
              @ [FundsWithdrawn (owner (payee (s\<lparr>balance := balance s - n\<rparr>))) n]\<rparr>"
  using assms by (simp add: withdrawUnclaimedFunds_def Let_def split: if_splits)

text \<open>
  A relation between the state before and after that is reflexive and transitive, holds
  across every call without a transfer, and holds across a claim and a withdrawal
  whenever it holds across what the recipient's code does, holds across every call and
  every run. The calls may be restricted to a set \<open>ok\<close> that is closed under nesting.
\<close>

lemma dispatch_run_rel:
  fixes R :: "state \<Rightarrow> state \<Rightarrow> bool" and ok :: "call \<Rightarrow> bool"
  assumes refl: "\<And>s. R s s"
    and trans: "\<And>s t u. R s t \<Longrightarrow> R t u \<Longrightarrow> R s u"
    and nest1: "\<And>e i cb c. ok (ClaimScholarship e i cb) \<Longrightarrow> c \<in> set cb \<Longrightarrow> ok c"
    and nest2: "\<And>e n cb c. ok (WithdrawUnclaimedFunds e n cb) \<Longrightarrow> c \<in> set cb \<Longrightarrow> ok c"
    and prim: "\<And>c s s'. \<not> transfers c \<Longrightarrow> ok c \<Longrightarrow> dispatch c s = Inr s' \<Longrightarrow> R s s'"
    and claim: "\<And>e i payee s s'. (\<And>t. R t (payee t))
        \<Longrightarrow> claimScholarship e i payee s = Inr s' \<Longrightarrow> R s s'"
    and withdraw: "\<And>e n payee s s'. (\<And>t. R t (payee t))
        \<Longrightarrow> withdrawUnclaimedFunds e n payee s = Inr s' \<Longrightarrow> R s s'"
  shows "ok c \<longrightarrow> (\<forall>s'. dispatch c s = Inr s' \<longrightarrow> R s s')"
    and "(\<forall>c \<in> set cs. ok c) \<longrightarrow> R s (run s cs)"
proof (induction c s and s cs rule: dispatch_run.induct)
  case (1 e a s)
  show ?case using prim [of "SetOracleAddress e a" s] by simp
next
  case (2 e sid h s)
  show ?case using prim [of "RegisterStudent e sid h" s] by simp
next
  case (3 e a sid b r s)
  show ?case using prim [of "VerifyEligibility e a sid b r" s] by simp
next
  case (4 e v t n d s)
  show ?case using prim [of "CreateScholarship e v t n d" s] by simp
next
  case (7 e v s)
  show ?case using prim [of "Receive e v" s] by simp
next
  case (5 e i cb s)
  show ?case
  proof (intro impI allI)
    fix s'
    assume ok: "ok (ClaimScholarship e i cb)"
      and d: "dispatch (ClaimScholarship e i cb) s = Inr s'"
    from ok have "\<forall>c \<in> set cb. ok c" by (blast intro: nest1)
    with "5.IH" have "\<And>t. R t (run t cb)" by simp
    then show "R s s'" using d by (intro claim [of "\<lambda>t. run t cb" e i s s']) simp_all
  qed
next
  case (6 e n cb s)
  show ?case
  proof (intro impI allI)
    fix s'
    assume ok: "ok (WithdrawUnclaimedFunds e n cb)"
      and d: "dispatch (WithdrawUnclaimedFunds e n cb) s = Inr s'"
    from ok have "\<forall>c \<in> set cb. ok c" by (blast intro: nest2)
    with "6.IH" have "\<And>t. R t (run t cb)" by simp
    then show "R s s'" using d by (intro withdraw [of "\<lambda>t. run t cb" e n s s']) simp_all
  qed
next
  case (8 s)
  show ?case by (simp add: refl)
next
  case (9 s c cs)
  show ?case
  proof
    assume ok: "\<forall>c \<in> set (c # cs). ok c"
    then have c: "ok c" and cs: "\<forall>c \<in> set cs. ok c" by simp_all
    have step: "R s (transact s c)"
    proof (cases c s rule: transact_cases)
      case (reverted err)
      then show ?thesis by (simp add: refl)
    next
      case (committed s')
      with "9.IH"(1) c show ?thesis by simp
    qed
    from "9.IH"(2) cs have "R (transact s c) (run (transact s c) cs)"
      by (simp add: transact_def)
    with step show "R s (run s (c # cs))"
      unfolding run_Cons by (rule trans)
  qed
qed

text \<open>The same for all calls, and for the calls whose senders are not \<^verbatim>\<open>address(0)\<close>.\<close>

lemma rel_all:
  fixes R :: "state \<Rightarrow> state \<Rightarrow> bool"
  assumes "\<And>s. R s s"
    and "\<And>s t u. R s t \<Longrightarrow> R t u \<Longrightarrow> R s u"
    and prim: "\<And>c s s'. \<not> transfers c \<Longrightarrow> dispatch c s = Inr s' \<Longrightarrow> R s s'"
    and "\<And>e i payee s s'. (\<And>t. R t (payee t))
        \<Longrightarrow> claimScholarship e i payee s = Inr s' \<Longrightarrow> R s s'"
    and "\<And>e n payee s s'. (\<And>t. R t (payee t))
        \<Longrightarrow> withdrawUnclaimedFunds e n payee s = Inr s' \<Longrightarrow> R s s'"
  shows "dispatch c s = Inr s' \<Longrightarrow> R s s'" and "R s (run s cs)" and "R s (transact s c)"
proof -
  have d: "(\<lambda>c. True) c \<longrightarrow> (\<forall>s'. dispatch c s = Inr s' \<longrightarrow> R s s')" for c s
    by (rule dispatch_run_rel(1) [where ok = "\<lambda>c. True"])
       (fact assms(1), erule assms(2), assumption, simp, simp,
        erule prim, assumption, erule assms(4), assumption, erule assms(5), assumption)
  have r: "(\<forall>c \<in> set cs. (\<lambda>c. True) c) \<longrightarrow> R s (run s cs)"
    by (rule dispatch_run_rel(2) [where ok = "\<lambda>c. True"])
       (fact assms(1), erule assms(2), assumption, simp, simp,
        erule prim, assumption, erule assms(4), assumption, erule assms(5), assumption)
  from d show "dispatch c s = Inr s' \<Longrightarrow> R s s'" by simp
  from r show "R s (run s cs)" by simp
  from d [of c s] assms(1) show "R s (transact s c)"
    by (cases c s rule: transact_cases) simp_all
qed

lemma rel_senders:
  fixes R :: "state \<Rightarrow> state \<Rightarrow> bool"
  assumes "\<And>s. R s s"
    and "\<And>s t u. R s t \<Longrightarrow> R t u \<Longrightarrow> R s u"
    and prim: "\<And>c s s'. \<not> transfers c \<Longrightarrow> senders_ok c \<Longrightarrow> dispatch c s = Inr s' \<Longrightarrow> R s s'"
    and "\<And>e i payee s s'. (\<And>t. R t (payee t))
        \<Longrightarrow> claimScholarship e i payee s = Inr s' \<Longrightarrow> R s s'"
    and "\<And>e n payee s s'. (\<And>t. R t (payee t))
        \<Longrightarrow> withdrawUnclaimedFunds e n payee s = Inr s' \<Longrightarrow> R s s'"
  shows "senders_ok c \<Longrightarrow> R s (transact s c)"
proof -
  have d: "senders_ok c \<longrightarrow> (\<forall>s'. dispatch c s = Inr s' \<longrightarrow> R s s')"
    by (rule dispatch_run_rel(1) [where ok = senders_ok])
       (fact assms(1), erule assms(2), assumption, simp, simp,
        erule prim, assumption, assumption, erule assms(4), assumption,
        erule assms(5), assumption)
  with assms(1) show "senders_ok c \<Longrightarrow> R s (transact s c)"
    by (cases c s rule: transact_cases) simp_all
qed

subsection \<open>The bookkeeping of a scholarship\<close>

lemma keeps_pools_refl: "keeps_pools s s"
  by (simp add: keeps_pools_def)

lemma keeps_pools_trans: "keeps_pools s t \<Longrightarrow> keeps_pools t u \<Longrightarrow> keeps_pools s u"
  by (simp add: keeps_pools_def)

lemma keeps_pools_prim: "\<not> transfers c \<Longrightarrow> dispatch c s = Inr s' \<Longrightarrow> keeps_pools s s'"
  by (cases c)
     (auto simp: keeps_pools_def pools_ok_def pool_ok_def op_defs Let_def split: if_splits)

lemma keeps_pools_claim:
  assumes "\<And>t. keeps_pools t (payee t)" and "claimScholarship e i payee s = Inr s'"
  shows "keeps_pools s s'"
  unfolding keeps_pools_def
proof
  note c = claimScholarship_Inr [OF assms(2)]
  assume "pools_ok s"
  with c have "pools_ok (claim_effects e i s)"
    by (auto simp: pools_ok_def pool_ok_def claim_effects_def Let_def)
  with assms(1) have "pools_ok (payee (claim_effects e i s))"
    by (simp add: keeps_pools_def)
  with c show "pools_ok s'"
    by (simp add: pools_ok_def)
qed

lemma keeps_pools_withdraw:
  assumes "\<And>t. keeps_pools t (payee t)" and "withdrawUnclaimedFunds e n payee s = Inr s'"
  shows "keeps_pools s s'"
  unfolding keeps_pools_def
proof
  note w = withdrawUnclaimedFunds_Inr [OF assms(2)]
  assume "pools_ok s"
  then have "pools_ok (s\<lparr>balance := balance s - n\<rparr>)"
    by (simp add: pools_ok_def)
  with assms(1) have "pools_ok (payee (s\<lparr>balance := balance s - n\<rparr>))"
    by (simp add: keeps_pools_def)
  with w show "pools_ok s'"
    by (simp add: pools_ok_def)
qed

lemma pools_ok_transact: "pools_ok s \<Longrightarrow> pools_ok (transact s c)"
proof -
  have "keeps_pools s (transact s c)"
    by (rule rel_all(3))
       (rule keeps_pools_refl, erule keeps_pools_trans, assumption,
        erule keeps_pools_prim, assumption, erule keeps_pools_claim, assumption,
        erule keeps_pools_withdraw, assumption)
  then show "pools_ok s \<Longrightarrow> pools_ok (transact s c)"
    by (simp add: keeps_pools_def)
qed

lemma reachable_pools_ok: "reachable s \<Longrightarrow> pools_ok s"
proof (induction rule: reachable.induct)
  case (deployed d)
  show ?case
    by (simp add: pools_ok_def pool_ok_def constructor_def zeroScholarship_def)
next
  case (transacted s c)
  then show ?case by (simp add: pools_ok_transact)
qed

lemma pool_ok_funds:
  assumes "pool_ok p" and "claimsProcessed p < beneficiaryCount p"
  shows "claimAmount p \<le> remainingAmount p"
proof -
  have "(claimsProcessed p + 1) * claimAmount p \<le> beneficiaryCount p * claimAmount p"
    using assms(2) by (intro mult_le_mono1) simp
  also have "\<dots> \<le> totalAmount p"
    using assms(1) by (simp add: pool_ok_def mult.commute)
  finally show ?thesis
    using assms(1) by (simp add: pool_ok_def)
qed

text \<open>The nested calls of a claim run from a state in which the bookkeeping holds as
  well, and no claim made where it holds fails for lack of funds in the scholarship.\<close>

lemma pools_ok_claim_effects:
  assumes "pools_ok s" and "claimScholarship e i payee s = Inr s'"
  shows "pools_ok (claim_effects e i s)"
  using assms(1) claimScholarship_Inr [OF assms(2)]
  by (auto simp: pools_ok_def pool_ok_def claim_effects_def Let_def)

lemma pools_ok_run: "pools_ok s \<Longrightarrow> pools_ok (run s cs)"
proof -
  have "keeps_pools s (run s cs)"
    by (rule rel_all(2))
       (rule keeps_pools_refl, erule keeps_pools_trans, assumption,
        erule keeps_pools_prim, assumption, erule keeps_pools_claim, assumption,
        erule keeps_pools_withdraw, assumption)
  then show "pools_ok s \<Longrightarrow> pools_ok (run s cs)"
    by (simp add: keeps_pools_def)
qed

lemma pools_ok_never_insufficient:
  assumes "pools_ok s"
  shows "claimScholarship e i payee s \<noteq> Inl InsufficientScholarshipFunds"
proof -
  from assms have "pool_ok (scholarships s i)" by (simp add: pools_ok_def)
  then have "claimsProcessed (scholarships s i) < beneficiaryCount (scholarships s i)
      \<Longrightarrow> claimAmount (scholarships s i) \<le> remainingAmount (scholarships s i)"
    by (rule pool_ok_funds)
  then show ?thesis by (auto simp: claimScholarship_def Let_def)
qed

subsection \<open>A scholarship stays\<close>

lemma keeps_pool_prim: "\<not> transfers c \<Longrightarrow> dispatch c s = Inr s' \<Longrightarrow> keeps_pool i s s'"
  by (cases c) (auto simp: keeps_pool_def op_defs Let_def split: if_splits)

lemma keeps_pool_claim:
  assumes "\<And>t. keeps_pool i t (payee t)" and "claimScholarship e j payee s = Inr s'"
  shows "keeps_pool i s s'"
  unfolding keeps_pool_def
proof
  note c = claimScholarship_Inr [OF assms(2)]
  assume "i < scholarshipCounter s \<and> active (scholarships s i)"
  then have "i < scholarshipCounter (claim_effects e j s)
      \<and> active (scholarships (claim_effects e j s) i)"
    by (auto simp: claim_effects_def Let_def)
  with assms(1) have "i < scholarshipCounter (payee (claim_effects e j s))
      \<and> active (scholarships (payee (claim_effects e j s)) i)"
    unfolding keeps_pool_def by blast
  with c show "i < scholarshipCounter s' \<and> active (scholarships s' i)"
    by simp
qed

lemma keeps_pool_withdraw:
  assumes "\<And>t. keeps_pool i t (payee t)" and "withdrawUnclaimedFunds e n payee s = Inr s'"
  shows "keeps_pool i s s'"
  unfolding keeps_pool_def
proof
  note w = withdrawUnclaimedFunds_Inr [OF assms(2)]
  assume "i < scholarshipCounter s \<and> active (scholarships s i)"
  then have "i < scholarshipCounter (s\<lparr>balance := balance s - n\<rparr>)
      \<and> active (scholarships (s\<lparr>balance := balance s - n\<rparr>) i)"
    by simp
  with assms(1) have "i < scholarshipCounter (payee (s\<lparr>balance := balance s - n\<rparr>))
      \<and> active (scholarships (payee (s\<lparr>balance := balance s - n\<rparr>)) i)"
    unfolding keeps_pool_def by blast
  with w show "i < scholarshipCounter s' \<and> active (scholarships s' i)"
    by simp
qed

lemma keeps_pool_run: "keeps_pool i s (run s cs)"
  by (rule rel_all(2))
     (simp add: keeps_pool_def, simp add: keeps_pool_def,
      erule keeps_pool_prim, assumption, erule keeps_pool_claim, assumption,
      erule keeps_pool_withdraw, assumption)

subsection \<open>The claimed flag of a registered account\<close>

lemma keeps_flag_prim: "\<not> transfers c \<Longrightarrow> dispatch c s = Inr s' \<Longrightarrow> keeps_flag a s s'"
  by (cases c)
     (auto simp: keeps_flag_def flag_locked_def disbursed_def op_defs Let_def split: if_splits)

lemma keeps_flag_claim:
  assumes "\<And>t. keeps_flag a t (payee t)" and "claimScholarship e j payee s = Inr s'"
  shows "keeps_flag a s s'"
  unfolding keeps_flag_def
proof
  note c = claimScholarship_Inr [OF assms(2)]
  assume locked: "flag_locked a s"
  with c have other: "sender e \<noteq> a"
    by (auto simp: flag_locked_def)
  with locked have "flag_locked a (claim_effects e j s)
      \<and> (\<forall>i. disbursed a i (claim_effects e j s) = disbursed a i s)"
    by (simp add: flag_locked_def disbursed_def claim_effects_def Let_def)
  with assms(1) have "flag_locked a (payee (claim_effects e j s))
      \<and> (\<forall>i. disbursed a i (payee (claim_effects e j s)) = disbursed a i s)"
    unfolding keeps_flag_def by metis
  with c other show "flag_locked a s' \<and> (\<forall>i. disbursed a i s' = disbursed a i s)"
    by (simp add: flag_locked_def disbursed_def)
qed

lemma keeps_flag_withdraw:
  assumes "\<And>t. keeps_flag a t (payee t)" and "withdrawUnclaimedFunds e n payee s = Inr s'"
  shows "keeps_flag a s s'"
  unfolding keeps_flag_def
proof
  note w = withdrawUnclaimedFunds_Inr [OF assms(2)]
  assume "flag_locked a s"
  then have "flag_locked a (s\<lparr>balance := balance s - n\<rparr>)
      \<and> (\<forall>i. disbursed a i (s\<lparr>balance := balance s - n\<rparr>) = disbursed a i s)"
    by (simp add: flag_locked_def disbursed_def)
  with assms(1) have "flag_locked a (payee (s\<lparr>balance := balance s - n\<rparr>))
      \<and> (\<forall>i. disbursed a i (payee (s\<lparr>balance := balance s - n\<rparr>)) = disbursed a i s)"
    unfolding keeps_flag_def by metis
  with w show "flag_locked a s' \<and> (\<forall>i. disbursed a i s' = disbursed a i s)"
    by (simp add: flag_locked_def disbursed_def)
qed

lemma keeps_flag_run: "keeps_flag a s (run s cs)"
  by (rule rel_all(2))
     (simp add: keeps_flag_def, simp add: keeps_flag_def,
      erule keeps_flag_prim, assumption, erule keeps_flag_claim, assumption,
      erule keeps_flag_withdraw, assumption)

lemma flag_locked_run: "flag_locked a s \<Longrightarrow> flag_locked a (run s cs)"
  using keeps_flag_run [of a s cs] by (simp add: keeps_flag_def)

lemma flag_locked_disbursed:
  "flag_locked a s \<Longrightarrow> disbursed a i (run s cs) = disbursed a i s"
  using keeps_flag_run [of a s cs] by (simp add: keeps_flag_def)

text \<open>A claim of a registered account that goes through leaves the flag set and one
  more payment in the log, whatever the recipient's code calls.\<close>

lemma claim_locks_flag:
  assumes "studentId (students s (sender e)) \<noteq> 0"
    and "dispatch (ClaimScholarship e i cb) s = Inr s1"
  shows "flag_locked (sender e) s1"
    and "disbursed (sender e) i s1 = disbursed (sender e) i s + 1"
    and "i < scholarshipCounter s1 \<and> active (scholarships s1 i)"
proof -
  from assms(2) have cl: "claimScholarship e i (\<lambda>t. run t cb) s = Inr s1" by simp
  note c = claimScholarship_Inr [OF cl]
  have mid: "flag_locked (sender e) (claim_effects e i s)"
    using assms(1) by (simp add: flag_locked_def claim_effects_def Let_def)
  have dmid: "disbursed (sender e) i (claim_effects e i s) = disbursed (sender e) i s"
    by (simp add: disbursed_def claim_effects_def Let_def)
  have pmid: "i < scholarshipCounter (claim_effects e i s)
      \<and> active (scholarships (claim_effects e i s) i)"
    using c by (simp add: claim_effects_def Let_def)
  from mid have "flag_locked (sender e) (run (claim_effects e i s) cb)"
    by (rule flag_locked_run)
  with c show "flag_locked (sender e) s1"
    by (simp add: flag_locked_def)
  from mid dmid have "disbursed (sender e) i (run (claim_effects e i s) cb)
      = disbursed (sender e) i s"
    by (simp add: flag_locked_disbursed)
  with c show "disbursed (sender e) i s1 = disbursed (sender e) i s + 1"
    by (simp add: disbursed_def)
  from pmid keeps_pool_run [of i "claim_effects e i s" cb]
  have "i < scholarshipCounter (run (claim_effects e i s) cb)
      \<and> active (scholarships (run (claim_effects e i s) cb) i)"
    by (simp add: keeps_pool_def)
  with c show "i < scholarshipCounter s1 \<and> active (scholarships s1 i)"
    by simp
qed

lemma flag_locked_claim:
  assumes "flag_locked a s" and "sender e = a"
    and "i < scholarshipCounter s" and "active (scholarships s i)"
  shows "claimScholarship e i payee s =
           Inl (if isEligible (students s a) then AlreadyClaimed else StudentNotEligible)"
  using assms by (simp add: flag_locked_def claimScholarship_def Let_def)

subsection \<open>At most one payment per pair\<close>

lemma pays_once_prim: "\<not> transfers c \<Longrightarrow> dispatch c s = Inr s' \<Longrightarrow> pays_once a i s s'"
  by (cases c)
     (auto simp: pays_once_def owed_def disbursed_def op_defs Let_def split: if_splits)

lemma pays_once_claim:
  assumes "\<And>t. pays_once a i t (payee t)" and "claimScholarship e j payee s = Inr s'"
  shows "pays_once a i s s'"
  unfolding pays_once_def
proof
  note c = claimScholarship_Inr [OF assms(2)]
  let ?m = "claim_effects e j s"
  let ?t = "payee ?m"
  assume reg: "studentId (students s a) \<noteq> 0"
  then have regm: "studentId (students ?m a) \<noteq> 0"
    by (auto simp: claim_effects_def Let_def)
  have dm: "disbursed a i ?m = disbursed a i s"
    by (simp add: disbursed_def claim_effects_def Let_def)
  have om: "owed a i ?m = (if sender e = a then disbursed a i s else owed a i s)"
    by (simp add: owed_def disbursed_def claim_effects_def Let_def)
  from assms(1) [of ?m] regm
  have t: "studentId (students ?t a) \<noteq> 0" "disbursed a i ?m \<le> disbursed a i ?t"
    "owed a i ?t \<le> owed a i ?m"
    by (simp_all add: pays_once_def)
  have ds': "disbursed a i s' = disbursed a i ?t + (if sender e = a \<and> j = i then 1 else 0)"
    using c by (simp add: disbursed_def)
  have fs': "hasClaimedScholarship (students s' a) = hasClaimedScholarship (students ?t a)"
    using c by simp
  have os: "sender e = a \<Longrightarrow> owed a i s = disbursed a i s + 1"
    using c by (auto simp: owed_def)
  have os': "owed a i s' = owed a i ?t + (if sender e = a \<and> j = i then 1 else 0)"
    using ds' fs' by (simp add: owed_def)
  have "owed a i s' \<le> owed a i s"
  proof (cases "sender e = a")
    case True
    with t(3) om have "owed a i ?t \<le> disbursed a i s" by simp
    with os' os [OF True] show ?thesis by (cases "j = i") simp_all
  next
    case False
    with t(3) om os' show ?thesis by (cases "j = i") simp_all
  qed
  moreover have "disbursed a i s \<le> disbursed a i s'"
    using t dm ds' by simp
  moreover have "studentId (students s' a) \<noteq> 0"
    using c t by simp
  ultimately show "studentId (students s' a) \<noteq> 0
      \<and> disbursed a i s \<le> disbursed a i s' \<and> owed a i s' \<le> owed a i s"
    by simp
qed

lemma pays_once_withdraw:
  assumes "\<And>t. pays_once a i t (payee t)" and "withdrawUnclaimedFunds e n payee s = Inr s'"
  shows "pays_once a i s s'"
  unfolding pays_once_def
proof
  note w = withdrawUnclaimedFunds_Inr [OF assms(2)]
  let ?m = "s\<lparr>balance := balance s - n\<rparr>"
  assume reg: "studentId (students s a) \<noteq> 0"
  then have "studentId (students ?m a) \<noteq> 0" by simp
  with assms(1) [of ?m]
  have "studentId (students (payee ?m) a) \<noteq> 0" "disbursed a i ?m \<le> disbursed a i (payee ?m)"
    "owed a i (payee ?m) \<le> owed a i ?m"
    by (simp_all add: pays_once_def)
  with w show "studentId (students s' a) \<noteq> 0
      \<and> disbursed a i s \<le> disbursed a i s' \<and> owed a i s' \<le> owed a i s"
    by (simp add: owed_def disbursed_def)
qed

lemma pays_once_trans: "pays_once a i s t \<Longrightarrow> pays_once a i t u \<Longrightarrow> pays_once a i s u"
  unfolding pays_once_def by (meson le_trans)

lemma pays_once_run: "pays_once a i s (run s cs)"
  by (rule rel_all(2))
     (simp add: pays_once_def, erule pays_once_trans, assumption,
      erule pays_once_prim, assumption, erule pays_once_claim, assumption,
      erule pays_once_withdraw, assumption)

text \<open>From a state in which the account is registered, no run, nested calls included,
  adds two payments from one scholarship to its log.\<close>

lemma registered_paid_once:
  assumes "studentId (students s a) \<noteq> 0"
  shows "disbursed a i (run s cs) \<le> disbursed a i s + 1"
proof -
  from pays_once_run [of a i s cs] assms
  have "owed a i (run s cs) \<le> owed a i s" by (simp add: pays_once_def)
  then show ?thesis by (simp add: owed_def split: if_splits)
qed

lemma run_reachable:
  "reachable s \<Longrightarrow> \<forall>c \<in> set cs. senders_ok c \<Longrightarrow> reachable (run s cs)"
proof (induction cs arbitrary: s)
  case Nil
  then show ?case by simp
next
  case (Cons c cs)
  from Cons.prems have "reachable (transact s c)"
    by (simp add: reachable.transacted)
  with Cons.IH [of "transact s c"] Cons.prems show ?case
    unfolding run_Cons by simp
qed

lemma ready_reachable: "reachable ready"
  unfolding ready_def
  by (rule run_reachable)
     (simp_all add: reachable.deployed ready_calls_def merit_def admin_def alice_def)

lemma claimed_reachable: "reachable claimed"
  unfolding claimed_def
  by (rule reachable.transacted [OF ready_reachable]) (simp add: alice_def)

subsection \<open>Conservation\<close>

text \<open>
  C1, as the contract keeps it. In every reachable state and for every scholarship id,
  \<open>remainingAmount + claimsProcessed * claimAmount = totalAmount\<close> and
  \<open>claimsProcessed \<le> beneficiaryCount\<close>. No withdrawal appears in the identity:
  \<^verbatim>\<open>withdrawUnclaimedFunds\<close> takes no scholarship id and writes to no scholarship, it only
  lowers the contract's balance.
\<close>

theorem conservation:
  assumes "reachable s"
  shows "remainingAmount (scholarships s i)
           + claimsProcessed (scholarships s i) * claimAmount (scholarships s i)
         = totalAmount (scholarships s i)
       \<and> claimsProcessed (scholarships s i) \<le> beneficiaryCount (scholarships s i)"
  using reachable_pools_ok [OF assms] by (simp add: pools_ok_def pool_ok_def)

text \<open>After Alice's claim on the scholarship of 100 for 3: 67 left, one claim of 33.\<close>

theorem conservation_witness:
  "reachable claimed
   \<and> remainingAmount (scholarships claimed 0) = 67
   \<and> claimsProcessed (scholarships claimed 0) = 1
   \<and> claimAmount (scholarships claimed 0) = 33
   \<and> remainingAmount (scholarships claimed 0)
        + claimsProcessed (scholarships claimed 0) * claimAmount (scholarships claimed 0)
      = totalAmount (scholarships claimed 0)
   \<and> claimsProcessed (scholarships claimed 0) \<le> beneficiaryCount (scholarships claimed 0)"
proof -
  have nums: "remainingAmount (scholarships claimed 0) = 67
      \<and> claimsProcessed (scholarships claimed 0) = 1
      \<and> claimAmount (scholarships claimed 0) = 33"
    by (simp add: claimed_def ready_def ready_calls_def run_defs)
  show ?thesis
    using conservation [OF claimed_reachable, of 0] claimed_reachable nums by simp
qed

text \<open>
  With the withdrawals subtracted the identity fails. The contract holds one scholarship
  of 100 and has received no other Ether; the owner withdraws 100, which empties the
  balance. The scholarship still records 100 remaining and none claimed, while its total
  less the 100 withdrawn is 0.
\<close>

theorem conservation_counterexample:
  "withdrawn (run (constructor 1) drain_calls) = 100
   \<and> balance (run (constructor 1) drain_calls) = 0
   \<and> remainingAmount (scholarships (run (constructor 1) drain_calls) 0)
        + claimsProcessed (scholarships (run (constructor 1) drain_calls) 0)
          * claimAmount (scholarships (run (constructor 1) drain_calls) 0)
      \<noteq> totalAmount (scholarships (run (constructor 1) drain_calls) 0)
          - withdrawn (run (constructor 1) drain_calls)"
  by (simp add: drain_calls_def run_defs withdrawn_def)

subsection \<open>Exactly-once claims\<close>

text \<open>
  C2, for a registered account. Let a claim of a registered account (student id not 0) on
  a scholarship go through, whatever the recipient's code calls while it is paid, and let
  any calls \<open>cs\<close> follow. Then a further claim of that account on that scholarship
  reverts: with \<open>AlreadyClaimed\<close> when the account is eligible at that moment, with
  \<open>StudentNotEligible\<close> (the earlier check) when the oracle has revoked the eligibility
  since. The reverted call leaves the whole state, the balance included, as it was, and
  from the state before the first claim to the end of the run the log gains exactly one
  payment for the pair.
\<close>

theorem exactly_once_registered:
  assumes "studentId (students s (sender e)) \<noteq> 0"
    and "dispatch (ClaimScholarship e i cb) s = Inr s1"
    and "sender e' = sender e"
  shows "claimScholarship e' i payee (run s1 cs)
           = Inl (if isEligible (students (run s1 cs) (sender e)) then AlreadyClaimed
                  else StudentNotEligible)
       \<and> transact (run s1 cs) (ClaimScholarship e' i cb') = run s1 cs
       \<and> disbursed (sender e) i (run s1 cs) = disbursed (sender e) i s + 1"
proof -
  note first = claim_locks_flag [OF assms(1,2)]
  have locked: "flag_locked (sender e) (run s1 cs)"
    using first(1) by (rule flag_locked_run)
  have pool: "i < scholarshipCounter (run s1 cs) \<and> active (scholarships (run s1 cs) i)"
    using first(3) keeps_pool_run [of i s1 cs] by (simp add: keeps_pool_def)
  have fails: "claimScholarship e' i p (run s1 cs)
           = Inl (if isEligible (students (run s1 cs) (sender e)) then AlreadyClaimed
                  else StudentNotEligible)" for p
    using locked assms(3) pool by (simp add: flag_locked_claim)
  have "disbursed (sender e) i (run s1 cs) = disbursed (sender e) i s + 1"
    using first(1,2) by (simp add: flag_locked_disbursed)
  with fails show ?thesis by (simp add: transact_def)
qed

text \<open>Alice (student id 7) claims scholarship 0; a scholarship is added; she claims
  again.\<close>

theorem exactly_once_registered_witness:
  "studentId (students ready (sender alice)) \<noteq> 0
   \<and> dispatch (ClaimScholarship alice 0 []) ready = Inr claimed
   \<and> claimScholarship alice 0 (\<lambda>t. t) (run claimed [merit]) = Inl AlreadyClaimed
   \<and> transact (run claimed [merit]) (ClaimScholarship alice 0 []) = run claimed [merit]
   \<and> disbursed (sender alice) 0 ready = 0
   \<and> disbursed (sender alice) 0 (run claimed [merit]) = 1"
proof -
  have reg: "studentId (students ready (sender alice)) \<noteq> 0"
    by (simp add: ready_def ready_calls_def run_defs)
  have "\<not> isl (dispatch (ClaimScholarship alice 0 []) ready)"
    by (simp add: ready_def ready_calls_def run_defs)
  then have ok: "dispatch (ClaimScholarship alice 0 []) ready = Inr claimed"
    using dispatch_committed [of "ClaimScholarship alice 0 []" ready] by (simp add: claimed_def)
  have el: "isEligible (students (run claimed [merit]) (sender alice))"
    by (simp add: claimed_def ready_def ready_calls_def run_defs)
  have none: "disbursed (sender alice) 0 ready = 0"
    by (simp add: ready_def ready_calls_def run_defs disbursed_def)
  show ?thesis
    using exactly_once_registered [OF reg ok refl, of "\<lambda>t. t" "[merit]" "[]"] reg ok el none
    by simp
qed

text \<open>
  The second claim does not always revert with \<open>AlreadyClaimed\<close>: after Alice's claim the
  oracle revokes her eligibility, and her next claim on the same scholarship reverts with
  \<open>StudentNotEligible\<close>.
\<close>

theorem exactly_once_counterexample:
  "disbursed 2 0 (run (constructor 1) revoke_calls) = 1
   \<and> dispatch (ClaimScholarship alice 0 []) (run (constructor 1) revoke_calls)
        = Inl StudentNotEligible
   \<and> dispatch (ClaimScholarship alice 0 []) (run (constructor 1) revoke_calls)
        \<noteq> Inl AlreadyClaimed"
  by (simp add: revoke_calls_def ready_calls_def run_defs disbursed_def)

text \<open>
  An account that claims before it registers is not covered by the theorem above.
  \<^verbatim>\<open>verifyEligibility\<close> compares the stored student id with the one supplied, and for an
  address that never registered the stored id is 0: called with id 0 it marks the address
  eligible. The address claims, registers afterwards (which writes a fresh \<^verbatim>\<open>Student\<close> with
  the claimed flag cleared), is verified under its new id and claims the same scholarship
  a second time. When the address is a contract it can register while it is being paid:
  the claim then ends with the claimed flag already cleared.
\<close>

lemma replay_pays_twice:
  "disbursed 3 0 (run (constructor 1) replay_calls) = 2
   \<and> claimedAmounts (run (constructor 1) replay_calls) 3 = 66"
  by (simp add: replay_calls_def run_defs disbursed_def)

lemma reenter_clears_flag:
  "disbursed 3 0 (run (constructor 1) reenter_calls) = 1
   \<and> studentId (students (run (constructor 1) reenter_calls) 3) = 9
   \<and> \<not> hasClaimedScholarship (students (run (constructor 1) reenter_calls) 3)
   \<and> dispatch (ClaimScholarship bob 0 []) (run (constructor 1) reenter_calls)
        = Inl StudentNotEligible"
  by (simp add: reenter_calls_def run_defs disbursed_def)

subsection \<open>The claimed flag\<close>

text \<open>
  C3, as the contract keeps it. The claimed flag is one boolean of the \<^verbatim>\<open>Student\<close> record,
  not one per scholarship. A claim of a registered account that goes through sets it, and
  it stays set whatever the recipient's code calls while it is paid and whatever calls
  \<open>cs\<close> follow. So every later claim of the account on any scholarship that exists, the
  same or another, reverts: with \<open>AlreadyClaimed\<close> when the account is eligible at that
  moment, with \<open>StudentNotEligible\<close> when the oracle has revoked the eligibility since.
\<close>

theorem claimed_flag_per_account:
  assumes "studentId (students s (sender e)) \<noteq> 0"
    and "dispatch (ClaimScholarship e iA cb) s = Inr s1"
    and "sender e' = sender e"
    and "iB < scholarshipCounter (run s1 cs)" and "active (scholarships (run s1 cs) iB)"
  shows "hasClaimedScholarship (students (run s1 cs) (sender e))
       \<and> claimScholarship e' iB payee (run s1 cs)
           = Inl (if isEligible (students (run s1 cs) (sender e)) then AlreadyClaimed
                  else StudentNotEligible)"
proof -
  have locked: "flag_locked (sender e) (run s1 cs)"
    using claim_locks_flag(1) [OF assms(1,2)] by (rule flag_locked_run)
  then have "hasClaimedScholarship (students (run s1 cs) (sender e))"
    by (simp add: flag_locked_def)
  moreover have "claimScholarship e' iB payee (run s1 cs)
           = Inl (if isEligible (students (run s1 cs) (sender e)) then AlreadyClaimed
                  else StudentNotEligible)"
    using locked assms(3,4,5) by (rule flag_locked_claim)
  ultimately show ?thesis by simp
qed

text \<open>Two scholarships. Alice's account is a contract that, while it is paid from
  scholarship 0, tries to register again and to claim scholarship 1; both nested calls
  revert. Afterwards she asks for scholarship 1.\<close>

theorem claimed_flag_per_account_witness:
  "studentId (students two_pools (sender alice)) \<noteq> 0
   \<and> dispatch stubborn two_pools = Inr (transact two_pools stubborn)
   \<and> 1 < scholarshipCounter (run (transact two_pools stubborn) [])
   \<and> active (scholarships (run (transact two_pools stubborn) []) 1)
   \<and> hasClaimedScholarship (students (transact two_pools stubborn) (sender alice))
   \<and> claimsProcessed (scholarships (transact two_pools stubborn) 1) = 0
   \<and> claimScholarship alice 1 (\<lambda>t. t) (transact two_pools stubborn) = Inl AlreadyClaimed"
proof -
  have reg: "studentId (students two_pools (sender alice)) \<noteq> 0"
    by (simp add: two_pools_def two_pool_calls_def run_defs)
  have "\<not> isl (dispatch stubborn two_pools)"
    by (simp add: stubborn_def two_pools_def two_pool_calls_def run_defs)
  then have ok: "dispatch (ClaimScholarship alice 0
        [RegisterStudent alice 8 ''QmAgain'', ClaimScholarship alice 1 []]) two_pools
      = Inr (transact two_pools stubborn)"
    using dispatch_committed [of stubborn two_pools] by (simp add: stubborn_def)
  have there: "1 < scholarshipCounter (run (transact two_pools stubborn) [])"
    by (simp add: stubborn_def two_pools_def two_pool_calls_def run_defs)
  have act: "active (scholarships (run (transact two_pools stubborn) []) 1)"
    by (simp add: stubborn_def two_pools_def two_pool_calls_def run_defs)
  have more: "isEligible (students (transact two_pools stubborn) (sender alice))
      \<and> claimsProcessed (scholarships (transact two_pools stubborn) 1) = 0"
    by (simp add: stubborn_def two_pools_def two_pool_calls_def run_defs)
  show ?thesis
    using claimed_flag_per_account [OF reg ok refl there act, of "\<lambda>t. t"] reg ok there act more
    by (simp add: stubborn_def)
qed

text \<open>
  The flag is not kept per scholarship. Scholarship 1 exists and is active, Alice is
  eligible, none of its 2 places is taken, it holds 50 for shares of 25, and Alice was never
  paid from it; her claim on it reverts with \<open>AlreadyClaimed\<close> because she claimed
  scholarship 0.
\<close>

theorem claimed_flag_counterexample:
  "1 < scholarshipCounter one_claimed
   \<and> active (scholarships one_claimed 1)
   \<and> isEligible (students one_claimed 2)
   \<and> claimsProcessed (scholarships one_claimed 1) = 0
   \<and> beneficiaryCount (scholarships one_claimed 1) = 2
   \<and> claimAmount (scholarships one_claimed 1) = 25
   \<and> remainingAmount (scholarships one_claimed 1) = 50
   \<and> disbursed 2 0 one_claimed = 1
   \<and> disbursed 2 1 one_claimed = 0
   \<and> dispatch (ClaimScholarship alice 1 []) one_claimed = Inl AlreadyClaimed"
  by (simp add: one_claimed_def two_pool_calls_def run_defs disbursed_def)

subsection \<open>The order of the checks of a claim\<close>

text \<open>
  C4, with the third check as the contract makes it. \<^verbatim>\<open>claimScholarship\<close> reports the
  first check that fails, in this order: the scholarship exists and is active
  (\<open>ScholarshipDoesNotExist\<close>), the caller is eligible (\<open>StudentNotEligible\<close>), the
  caller's claimed flag is clear, that is, the caller has claimed no scholarship at all
  (\<open>AlreadyClaimed\<close>), fewer claims than beneficiaries (\<open>AllFundsDistributed\<close>), the
  remaining amount covers a share (\<open>InsufficientScholarshipFunds\<close>). When all five pass,
  the result is none of these five errors, whatever the recipient's code does.
\<close>

theorem claim_check_order:
  "(\<not> (i < scholarshipCounter s \<and> active (scholarships s i))
      \<longrightarrow> claimScholarship e i payee s = Inl ScholarshipDoesNotExist)
 \<and> (i < scholarshipCounter s \<and> active (scholarships s i)
      \<and> \<not> isEligible (students s (sender e))
      \<longrightarrow> claimScholarship e i payee s = Inl StudentNotEligible)
 \<and> (i < scholarshipCounter s \<and> active (scholarships s i)
      \<and> isEligible (students s (sender e))
      \<and> hasClaimedScholarship (students s (sender e))
      \<longrightarrow> claimScholarship e i payee s = Inl AlreadyClaimed)
 \<and> (i < scholarshipCounter s \<and> active (scholarships s i)
      \<and> isEligible (students s (sender e))
      \<and> \<not> hasClaimedScholarship (students s (sender e))
      \<and> \<not> claimsProcessed (scholarships s i) < beneficiaryCount (scholarships s i)
      \<longrightarrow> claimScholarship e i payee s = Inl AllFundsDistributed)
 \<and> (i < scholarshipCounter s \<and> active (scholarships s i)
      \<and> isEligible (students s (sender e))
      \<and> \<not> hasClaimedScholarship (students s (sender e))
      \<and> claimsProcessed (scholarships s i) < beneficiaryCount (scholarships s i)
      \<and> \<not> claimAmount (scholarships s i) \<le> remainingAmount (scholarships s i)
      \<longrightarrow> claimScholarship e i payee s = Inl InsufficientScholarshipFunds)
 \<and> (i < scholarshipCounter s \<and> active (scholarships s i)
      \<and> isEligible (students s (sender e))
      \<and> \<not> hasClaimedScholarship (students s (sender e))
      \<and> claimsProcessed (scholarships s i) < beneficiaryCount (scholarships s i)
      \<and> claimAmount (scholarships s i) \<le> remainingAmount (scholarships s i)
      \<longrightarrow> claimScholarship e i payee s \<notin> {Inl ScholarshipDoesNotExist, Inl StudentNotEligible,
             Inl AlreadyClaimed, Inl AllFundsDistributed, Inl InsufficientScholarshipFunds})"
  by (simp add: claimScholarship_def Let_def)

text \<open>Bob is not eligible and asks for a scholarship whose only place is taken: the
  answer is \<open>StudentNotEligible\<close>. Scholarship 5 does not exist.\<close>

theorem claim_check_order_witness:
  "0 < scholarshipCounter exhausted \<and> active (scholarships exhausted 0)
   \<and> \<not> isEligible (students exhausted (sender bob))
   \<and> \<not> claimsProcessed (scholarships exhausted 0) < beneficiaryCount (scholarships exhausted 0)
   \<and> claimScholarship bob 0 (\<lambda>t. t) exhausted = Inl StudentNotEligible
   \<and> \<not> 5 < scholarshipCounter exhausted
   \<and> claimScholarship bob 5 (\<lambda>t. t) exhausted = Inl ScholarshipDoesNotExist"
proof -
  have pool: "0 < scholarshipCounter exhausted \<and> active (scholarships exhausted 0)"
    by (simp add: exhausted_def single_calls_def run_defs)
  have inel: "\<not> isEligible (students exhausted (sender bob))"
    by (simp add: exhausted_def single_calls_def run_defs)
  have full: "\<not> claimsProcessed (scholarships exhausted 0)
      < beneficiaryCount (scholarships exhausted 0)"
    by (simp add: exhausted_def single_calls_def run_defs)
  have none: "\<not> 5 < scholarshipCounter exhausted"
    by (simp add: exhausted_def single_calls_def run_defs)
  show ?thesis
    using claim_check_order [of 0 exhausted bob "\<lambda>t. t"]
      claim_check_order [of 5 exhausted bob "\<lambda>t. t"]
      pool inel full none
    by simp
qed

text \<open>
  The third check is not about the scholarship asked for. Alice has claimed scholarship 1
  and asks for scholarship 0: it exists and is active, she is eligible, the log has no
  payment to her from it, none of its 3 places is taken and it holds 100 for shares of 33.
  None of the five checks, read per scholarship, fails; the contract answers
  \<open>AlreadyClaimed\<close>.
\<close>

theorem claim_check_order_counterexample:
  "0 < scholarshipCounter other_claimed \<and> active (scholarships other_claimed 0)
   \<and> isEligible (students other_claimed (sender alice))
   \<and> disbursed (sender alice) 0 other_claimed = 0
   \<and> claimsProcessed (scholarships other_claimed 0)
        < beneficiaryCount (scholarships other_claimed 0)
   \<and> claimAmount (scholarships other_claimed 0)
        \<le> remainingAmount (scholarships other_claimed 0)
   \<and> dispatch (ClaimScholarship alice 0 []) other_claimed = Inl AlreadyClaimed"
  by (simp add: other_claimed_def two_pool_calls_def run_defs disbursed_def)

subsection \<open>Funds for every open place\<close>

text \<open>
  C5. In every reachable state, when the scholarship exists and is active, the caller is
  eligible and has not claimed, and fewer claims than beneficiaries were processed, the
  remaining amount covers one share; so \<^verbatim>\<open>claimScholarship\<close> never reverts with
  \<open>InsufficientScholarshipFunds\<close>, whoever calls it and whatever the recipient's code
  does.
\<close>

theorem insufficient_funds_unreachable:
  assumes "reachable s"
  shows "(i < scholarshipCounter s \<and> active (scholarships s i)
          \<and> isEligible (students s (sender e))
          \<and> \<not> hasClaimedScholarship (students s (sender e))
          \<and> claimsProcessed (scholarships s i) < beneficiaryCount (scholarships s i)
          \<longrightarrow> claimAmount (scholarships s i) \<le> remainingAmount (scholarships s i))
       \<and> claimScholarship e i payee s \<noteq> Inl InsufficientScholarshipFunds"
proof -
  have "pool_ok (scholarships s i)"
    using reachable_pools_ok [OF assms] by (simp add: pools_ok_def)
  then have "claimsProcessed (scholarships s i) < beneficiaryCount (scholarships s i)
      \<Longrightarrow> claimAmount (scholarships s i) \<le> remainingAmount (scholarships s i)"
    by (rule pool_ok_funds)
  then show ?thesis
    by (auto simp: claimScholarship_def Let_def)
qed

text \<open>Alice, verified and not yet paid, before the scholarship of 100 for 3.\<close>

theorem insufficient_funds_unreachable_witness:
  "reachable ready
   \<and> 0 < scholarshipCounter ready \<and> active (scholarships ready 0)
   \<and> isEligible (students ready (sender alice))
   \<and> \<not> hasClaimedScholarship (students ready (sender alice))
   \<and> claimsProcessed (scholarships ready 0) < beneficiaryCount (scholarships ready 0)
   \<and> claimAmount (scholarships ready 0) \<le> remainingAmount (scholarships ready 0)
   \<and> claimScholarship alice 0 (\<lambda>t. t) ready \<noteq> Inl InsufficientScholarshipFunds"
proof -
  have pre: "0 < scholarshipCounter ready \<and> active (scholarships ready 0)
      \<and> isEligible (students ready (sender alice))
      \<and> \<not> hasClaimedScholarship (students ready (sender alice))
      \<and> claimsProcessed (scholarships ready 0) < beneficiaryCount (scholarships ready 0)"
    by (simp add: ready_def ready_calls_def run_defs)
  show ?thesis
    using insufficient_funds_unreachable [OF ready_reachable, of 0 alice "\<lambda>t. t"] ready_reachable pre
    by simp
qed

subsection \<open>Creating a scholarship\<close>

text \<open>
  C6, as the contract does it. Let the owner call \<^verbatim>\<open>createScholarship\<close> with a title
  that is not empty, sending \<open>v\<close> for \<open>n\<close> beneficiaries, and let neither \<^verbatim>\<open>totalFunds\<close> nor
  the counter overflow. If \<open>0 < n\<close> and \<open>1 \<le> v div n\<close>, the scholarship is stored under the
  next id with share \<open>v div n\<close>, total and remaining amount \<open>v\<close>, no claim processed and
  active, and the contract holds \<open>v\<close> more. If the share would be 0, or \<open>n = 0\<close>, the call
  reverts and the state, the balance included, stays as it was.
\<close>

theorem createScholarship_cases:
  assumes "sender e = owner s" and "ttl \<noteq> []"
    and "totalFunds s + v \<le> max_uint256" and "scholarshipCounter s < max_uint256"
  shows "(0 < n \<and> 1 \<le> v div n \<longrightarrow>
           (\<exists>s'. createScholarship e v ttl n d s = Inr s'
              \<and> scholarshipCounter s' = scholarshipCounter s + 1
              \<and> claimAmount (scholarships s' (scholarshipCounter s)) = v div n
              \<and> totalAmount (scholarships s' (scholarshipCounter s)) = v
              \<and> remainingAmount (scholarships s' (scholarshipCounter s)) = v
              \<and> beneficiaryCount (scholarships s' (scholarshipCounter s)) = n
              \<and> claimsProcessed (scholarships s' (scholarshipCounter s)) = 0
              \<and> active (scholarships s' (scholarshipCounter s))
              \<and> balance s' = balance s + v))
       \<and> (0 < n \<and> v div n = 0 \<longrightarrow>
           isl (createScholarship e v ttl n d s)
              \<and> transact s (CreateScholarship e v ttl n d) = s)
       \<and> (n = 0 \<longrightarrow>
           isl (createScholarship e v ttl n d s)
              \<and> transact s (CreateScholarship e v ttl n d) = s)"
  using assms by (auto simp: createScholarship_def Let_def transact_def)

text \<open>100 for 3 gives shares of 33; 2 for 5 is refused.\<close>

theorem createScholarship_cases_witness:
  "sender admin = owner (constructor 1) \<and> ''Merit'' \<noteq> []
   \<and> totalFunds (constructor 1) + 100 \<le> max_uint256
   \<and> scholarshipCounter (constructor 1) < max_uint256
   \<and> (0::nat) < 3 \<and> (1::nat) \<le> 100 div 3
   \<and> \<not> isl (createScholarship admin 100 ''Merit'' 3 ''Top students'' (constructor 1))
   \<and> claimAmount (scholarships funded 0) = 33
   \<and> remainingAmount (scholarships funded 0) = 100
   \<and> claimsProcessed (scholarships funded 0) = 0
   \<and> active (scholarships funded 0)
   \<and> (2::nat) div 5 = 0
   \<and> isl (createScholarship admin 2 ''Merit'' 5 ''Top students'' (constructor 1))
   \<and> transact (constructor 1) (CreateScholarship admin 2 ''Merit'' 5 ''Top students'')
        = constructor 1"
proof -
  have own: "sender admin = owner (constructor 1)"
    by (simp add: admin_def constructor_def)
  have ttl: "''Merit'' \<noteq> []" by simp
  have room: "totalFunds (constructor 1) + 100 \<le> max_uint256"
    by (simp add: constructor_def max_uint256_def)
  have room2: "totalFunds (constructor 1) + 2 \<le> max_uint256"
    by (simp add: constructor_def max_uint256_def)
  have cnt: "scholarshipCounter (constructor 1) < max_uint256"
    by (simp add: constructor_def max_uint256_def)
  from createScholarship_cases [OF own ttl room cnt, of 3 "''Top students''"]
  obtain s' where s': "createScholarship admin 100 ''Merit'' 3 ''Top students'' (constructor 1)
        = Inr s'"
    and vals: "claimAmount (scholarships s' (scholarshipCounter (constructor 1))) = 100 div 3"
      "remainingAmount (scholarships s' (scholarshipCounter (constructor 1))) = 100"
      "claimsProcessed (scholarships s' (scholarshipCounter (constructor 1))) = 0"
      "active (scholarships s' (scholarshipCounter (constructor 1)))"
    by auto
  from s' have "funded = s'"
    by (simp add: funded_def merit_def transact_def)
  moreover have "scholarshipCounter (constructor 1) = 0"
    by (simp add: constructor_def)
  ultimately have created: "claimAmount (scholarships funded 0) = 33
      \<and> remainingAmount (scholarships funded 0) = 100
      \<and> claimsProcessed (scholarships funded 0) = 0
      \<and> active (scholarships funded 0)"
    using vals by simp
  have refused: "isl (createScholarship admin 2 ''Merit'' 5 ''Top students'' (constructor 1))
      \<and> transact (constructor 1) (CreateScholarship admin 2 ''Merit'' 5 ''Top students'')
        = constructor 1"
    using createScholarship_cases [OF own ttl room2 cnt, of 5 "''Top students''"] by simp
  show ?thesis
    using own room cnt s' created refused by simp
qed

text \<open>An empty title is refused, whatever the capacity and the funding: the owner sends
  100 for 3 beneficiaries with the title \<open>[]\<close>.\<close>

theorem createScholarship_counterexample:
  "sender admin = owner (constructor 1) \<and> (0::nat) < 3 \<and> (1::nat) \<le> 100 div 3
   \<and> createScholarship admin 100 [] 3 ''Top students'' (constructor 1) = Inl TitleEmpty
   \<and> transact (constructor 1) (CreateScholarship admin 100 [] 3 ''Top students'')
        = constructor 1"
  by (simp add: run_defs)

subsection \<open>Registration\<close>

lemma registry_ok_cong:
  assumes "registry_ok s" and "studentIdToWallet s' = studentIdToWallet s"
    and "\<And>a. studentId (students s' a) = studentId (students s a)"
  shows "registry_ok s'"
  using assms(1) unfolding registry_ok_def assms(2) assms(3) .

lemma registerStudent_registry_ok:
  assumes reg: "registerStudent e sid h s = Inr s'" and ok: "registry_ok s"
    and nz: "sender e \<noteq> 0"
  shows "registry_ok s'"
proof -
  from reg have sid: "sid \<noteq> 0" and free: "studentIdToWallet s sid = 0"
    and fresh: "studentId (students s (sender e)) = 0"
    by (auto simp: registerStudent_def split: if_splits)
  from reg have w: "studentIdToWallet s' = (studentIdToWallet s)(sid := sender e)"
    by (auto simp: registerStudent_def split: if_splits)
  from reg have st: "\<And>a. studentId (students s' a)
        = (if a = sender e then sid else studentId (students s a))"
    by (auto simp: registerStudent_def split: if_splits)
  have a1: "a \<noteq> 0 \<and> studentIdToWallet s' (studentId (students s' a)) = a"
    if "studentId (students s' a) \<noteq> 0" for a
  proof (cases "a = sender e")
    case True
    then show ?thesis using nz by (simp add: w st)
  next
    case False
    with that have old: "studentId (students s a) \<noteq> 0" by (simp add: st)
    with ok have nza: "a \<noteq> 0" and rt: "studentIdToWallet s (studentId (students s a)) = a"
      unfolding registry_ok_def by blast+
    have "studentId (students s a) \<noteq> sid"
    proof
      assume "studentId (students s a) = sid"
      with rt free nza show False by simp
    qed
    with nza rt False show ?thesis by (simp add: w st)
  qed
  have a2: "i \<noteq> 0 \<and> studentId (students s' (studentIdToWallet s' i)) = i"
    if "studentIdToWallet s' i \<noteq> 0" for i
  proof (cases "i = sid")
    case True
    then show ?thesis using sid by (simp add: w st)
  next
    case False
    with that have old: "studentIdToWallet s i \<noteq> 0" by (simp add: w)
    with ok have nzi: "i \<noteq> 0" and rt: "studentId (students s (studentIdToWallet s i)) = i"
      unfolding registry_ok_def by blast+
    have "studentIdToWallet s i \<noteq> sender e"
    proof
      assume "studentIdToWallet s i = sender e"
      with rt fresh nzi show False by simp
    qed
    with nzi rt False show ?thesis by (simp add: w st)
  qed
  from a1 a2 show ?thesis unfolding registry_ok_def by blast
qed

lemma keeps_registry_prim:
  assumes "\<not> transfers c" and "senders_ok c" and "dispatch c s = Inr s'"
  shows "keeps_registry s s'"
proof (cases c)
  case (RegisterStudent e sid h)
  with assms(2,3) have "registerStudent e sid h s = Inr s'" "sender e \<noteq> 0" by simp_all
  then show ?thesis
    unfolding keeps_registry_def using registerStudent_registry_ok by blast
next
  case (SetOracleAddress e a)
  with assms(3) have "studentIdToWallet s' = studentIdToWallet s"
    "\<And>a. studentId (students s' a) = studentId (students s a)"
    by (auto simp: setOracleAddress_def split: if_splits)
  then show ?thesis unfolding keeps_registry_def using registry_ok_cong by blast
next
  case (VerifyEligibility e a sid b r)
  with assms(3) have "studentIdToWallet s' = studentIdToWallet s"
    "\<And>a. studentId (students s' a) = studentId (students s a)"
    by (auto simp: verifyEligibility_def split: if_splits)
  then show ?thesis unfolding keeps_registry_def using registry_ok_cong by blast
next
  case (CreateScholarship e v t n d)
  with assms(3) have "studentIdToWallet s' = studentIdToWallet s"
    "\<And>a. studentId (students s' a) = studentId (students s a)"
    by (auto simp: createScholarship_def Let_def split: if_splits)
  then show ?thesis unfolding keeps_registry_def using registry_ok_cong by blast
next
  case (Receive e v)
  with assms(3) have "studentIdToWallet s' = studentIdToWallet s"
    "\<And>a. studentId (students s' a) = studentId (students s a)"
    by (auto simp: receive_def split: if_splits)
  then show ?thesis unfolding keeps_registry_def using registry_ok_cong by blast
next
  case (ClaimScholarship e i cb)
  with assms(1) show ?thesis by simp
next
  case (WithdrawUnclaimedFunds e n cb)
  with assms(1) show ?thesis by simp
qed

lemma keeps_registry_claim:
  assumes "\<And>t. keeps_registry t (payee t)" and "claimScholarship e i payee s = Inr s'"
  shows "keeps_registry s s'"
  unfolding keeps_registry_def
proof
  note c = claimScholarship_Inr [OF assms(2)]
  assume ok: "registry_ok s"
  have "studentIdToWallet (claim_effects e i s) = studentIdToWallet s"
    "\<And>a. studentId (students (claim_effects e i s) a) = studentId (students s a)"
    by (simp_all add: claim_effects_def Let_def)
  with ok have "registry_ok (claim_effects e i s)"
    using registry_ok_cong by blast
  with assms(1) have t: "registry_ok (payee (claim_effects e i s))"
    by (simp add: keeps_registry_def)
  from c have "studentIdToWallet s' = studentIdToWallet (payee (claim_effects e i s))"
    "\<And>a. studentId (students s' a) = studentId (students (payee (claim_effects e i s)) a)"
    by simp_all
  with t show "registry_ok s'"
    using registry_ok_cong by blast
qed

lemma keeps_registry_withdraw:
  assumes "\<And>t. keeps_registry t (payee t)" and "withdrawUnclaimedFunds e n payee s = Inr s'"
  shows "keeps_registry s s'"
  unfolding keeps_registry_def
proof
  note w = withdrawUnclaimedFunds_Inr [OF assms(2)]
  assume ok: "registry_ok s"
  then have "registry_ok (s\<lparr>balance := balance s - n\<rparr>)"
    by (rule registry_ok_cong) simp_all
  with assms(1) have t: "registry_ok (payee (s\<lparr>balance := balance s - n\<rparr>))"
    by (simp add: keeps_registry_def)
  from w have "studentIdToWallet s'
      = studentIdToWallet (payee (s\<lparr>balance := balance s - n\<rparr>))"
    "\<And>a. studentId (students s' a)
      = studentId (students (payee (s\<lparr>balance := balance s - n\<rparr>)) a)"
    by simp_all
  with t show "registry_ok s'"
    using registry_ok_cong by blast
qed

lemma registry_ok_transact:
  assumes "senders_ok c" and "registry_ok s"
  shows "registry_ok (transact s c)"
proof -
  have "senders_ok c \<Longrightarrow> keeps_registry s (transact s c)"
    by (rule rel_senders)
       (simp add: keeps_registry_def, simp add: keeps_registry_def,
        erule keeps_registry_prim, assumption, assumption,
        erule keeps_registry_claim, assumption,
        erule keeps_registry_withdraw, assumption)
  with assms show ?thesis by (simp add: keeps_registry_def)
qed

lemma reachable_registry_ok: "reachable s \<Longrightarrow> registry_ok s"
proof (induction rule: reachable.induct)
  case (deployed d)
  show ?case by (simp add: registry_ok_def constructor_def zeroStudent_def)
next
  case (transacted s c)
  then show ?case by (simp add: registry_ok_transact)
qed

text \<open>
  C7, as the contract orders its checks. In every reachable state: a registration with a
  student id that some account already holds reverts with \<open>StudentIDAlreadyRegistered\<close>,
  whoever sends it; a registration from a wallet that is already registered, with a
  student id that is not 0 and that no account holds, reverts with
  \<open>WalletAlreadyRegistered\<close>; and a registration that reverts leaves the state as it was,
  so no account is created.
\<close>

theorem registration_duplicates:
  assumes "reachable s"
  shows "(sid \<noteq> 0 \<and> studentId (students s a) = sid
            \<longrightarrow> registerStudent e sid h s = Inl StudentIDAlreadyRegistered)
       \<and> (studentId (students s (sender e)) \<noteq> 0 \<and> sid \<noteq> 0
            \<and> (\<forall>b. studentId (students s b) \<noteq> sid)
            \<longrightarrow> registerStudent e sid h s = Inl WalletAlreadyRegistered)
       \<and> (isl (registerStudent e sid h s) \<longrightarrow> transact s (RegisterStudent e sid h) = s)"
proof -
  have ok: "registry_ok s" using assms by (rule reachable_registry_ok)
  have taken: "registerStudent e sid h s = Inl StudentIDAlreadyRegistered"
    if "sid \<noteq> 0" "studentId (students s a) = sid"
  proof -
    from that have "studentId (students s a) \<noteq> 0" by simp
    with ok have "a \<noteq> 0" "studentIdToWallet s (studentId (students s a)) = a"
      unfolding registry_ok_def by blast+
    with that show ?thesis by (simp add: registerStudent_def)
  qed
  have bound: "registerStudent e sid h s = Inl WalletAlreadyRegistered"
    if "studentId (students s (sender e)) \<noteq> 0" "sid \<noteq> 0" "\<forall>b. studentId (students s b) \<noteq> sid"
  proof -
    have "studentIdToWallet s sid = 0"
    proof (rule ccontr)
      assume "studentIdToWallet s sid \<noteq> 0"
      with ok have "studentId (students s (studentIdToWallet s sid)) = sid"
        unfolding registry_ok_def by blast
      with that(3) show False by blast
    qed
    with that show ?thesis by (simp add: registerStudent_def)
  qed
  have "transact s (RegisterStudent e sid h) = s" if "isl (registerStudent e sid h s)"
    using that by (cases "registerStudent e sid h s") (auto simp: transact_def)
  with taken bound show ?thesis by blast
qed

text \<open>Alice holds student id 7. Bob registers with 7; Alice registers again with 8.\<close>

theorem registration_duplicates_witness:
  "reachable ready
   \<and> (7::nat) \<noteq> 0 \<and> studentId (students ready 2) = 7
   \<and> registerStudent bob 7 ''QmBob'' ready = Inl StudentIDAlreadyRegistered
   \<and> transact ready (RegisterStudent bob 7 ''QmBob'') = ready
   \<and> studentId (students ready (sender alice)) \<noteq> 0 \<and> (8::nat) \<noteq> 0
   \<and> (\<forall>b. studentId (students ready b) \<noteq> 8)
   \<and> registerStudent alice 8 ''QmAlice'' ready = Inl WalletAlreadyRegistered
   \<and> transact ready (RegisterStudent alice 8 ''QmAlice'') = ready"
proof -
  have held: "studentId (students ready 2) = 7"
    by (simp add: ready_def ready_calls_def run_defs)
  have reg: "studentId (students ready (sender alice)) \<noteq> 0"
    by (simp add: ready_def ready_calls_def run_defs)
  have free: "\<forall>b. studentId (students ready b) \<noteq> 8"
    by (simp add: ready_def ready_calls_def run_defs)
  show ?thesis
    using registration_duplicates [OF ready_reachable, of 7 2 bob "''QmBob''"]
      registration_duplicates [OF ready_reachable, of 8 2 alice "''QmAlice''"]
      ready_reachable held reg free
    by simp
qed

text \<open>
  A second registration from a registered wallet does not always revert with
  \<open>WalletAlreadyRegistered\<close>: the student id is checked first. Alice registers once more
  with her own id 7 and gets \<open>StudentIDAlreadyRegistered\<close>; with id 0 she gets
  \<open>InvalidStudentID\<close>.
\<close>

theorem registration_counterexample:
  "studentId (students ready (sender alice)) = 7
   \<and> registerStudent alice 7 ''QmAlice'' ready = Inl StudentIDAlreadyRegistered
   \<and> registerStudent alice 7 ''QmAlice'' ready \<noteq> Inl WalletAlreadyRegistered
   \<and> registerStudent alice 0 ''QmAlice'' ready = Inl InvalidStudentID"
  by (simp add: ready_def ready_calls_def run_defs)

subsection \<open>The verification history\<close>

lemma extends_history_prim:
  "\<not> transfers c \<Longrightarrow> dispatch c s = Inr s' \<Longrightarrow> extends_history a s s'"
  by (cases c) (auto simp: extends_history_def op_defs Let_def split: if_splits)

lemma extends_history_trans:
  "extends_history a s t \<Longrightarrow> extends_history a t u \<Longrightarrow> extends_history a s u"
  by (auto simp: extends_history_def)

lemma extends_history_claim:
  assumes "\<And>t. extends_history a t (payee t)" and "claimScholarship e i payee s = Inr s'"
  shows "extends_history a s s'"
proof -
  note c = claimScholarship_Inr [OF assms(2)]
  have "extends_history a s (claim_effects e i s)"
    by (simp add: extends_history_def claim_effects_def Let_def)
  moreover from c have "extends_history a (payee (claim_effects e i s)) s'"
    by (simp add: extends_history_def)
  ultimately show ?thesis
    using assms(1) extends_history_trans by blast
qed

lemma extends_history_withdraw:
  assumes "\<And>t. extends_history a t (payee t)"
    and "withdrawUnclaimedFunds e n payee s = Inr s'"
  shows "extends_history a s s'"
proof -
  note w = withdrawUnclaimedFunds_Inr [OF assms(2)]
  have "extends_history a s (s\<lparr>balance := balance s - n\<rparr>)"
    by (simp add: extends_history_def)
  moreover from w have "extends_history a (payee (s\<lparr>balance := balance s - n\<rparr>)) s'"
    by (simp add: extends_history_def)
  ultimately show ?thesis
    using assms(1) extends_history_trans by blast
qed

text \<open>No call, nested calls included, removes or changes a record of the history: the
  old history is a prefix of the new one.\<close>

lemma history_append_only:
  "\<exists>ys. verificationHistory (transact s c) a = verificationHistory s a @ ys"
proof -
  have "extends_history a s (transact s c)"
    by (rule rel_all(3))
       (simp add: extends_history_def, erule extends_history_trans, assumption,
        erule extends_history_prim, assumption, erule extends_history_claim, assumption,
        erule extends_history_withdraw, assumption)
  then show ?thesis by (simp add: extends_history_def)
qed

lemma verifyEligibility_appends_one:
  assumes "verifyEligibility e a sid b r s = Inr s'"
  shows "\<exists>v. verificationHistory s' a = verificationHistory s a @ [v]
           \<and> vr_isEligible v = b \<and> vr_verifier v = sender e
           \<and> isEligible (students s' a) = b"
  using assms by (auto simp: verifyEligibility_def split: if_splits)

text \<open>
  C8 at the run \<open>late_calls\<close>. The oracle verifies Bob's address with student id 0 before
  Bob has registered: the stored id of an unregistered address is 0, so the id check
  passes and a record with \<open>isEligible = True\<close> is appended. Bob then registers, which
  stores a fresh \<^verbatim>\<open>Student\<close> with \<open>isEligible = False\<close>. Bob is now registered (id 9) and
  not eligible, while the most recent record of his history says eligible.
\<close>

theorem eligibility_mirror_broken:
  "studentId (students (run (constructor 1) late_calls) 3) = 9
   \<and> \<not> isEligible (students (run (constructor 1) late_calls) 3)
   \<and> length (verificationHistory (run (constructor 1) late_calls) 3) = 1
   \<and> vr_isEligible (last (verificationHistory (run (constructor 1) late_calls) 3))"
  by (simp add: late_calls_def run_defs)

subsection \<open>Who may record eligibility\<close>

text \<open>
  C9, for a student id that is not 0. \<^verbatim>\<open>verifyEligibility\<close> goes through exactly when the
  caller is the oracle, the address is not \<^verbatim>\<open>address(0)\<close> and the address is registered
  with the id supplied. A caller other than the oracle gets \<open>OnlyOracle\<close>; the oracle gets
  \<open>InvalidStudentAddress\<close> for \<^verbatim>\<open>address(0)\<close> and \<open>StudentIDMismatch\<close> whenever the stored id
  differs from the one supplied, which is the answer for every address that is not
  registered. A call that reverts leaves the state as it was.
\<close>

theorem verifyEligibility_checks:
  assumes "sid \<noteq> 0"
  shows "(\<not> isl (verifyEligibility e a sid b r s) \<longleftrightarrow>
            sender e = oracleAddress s \<and> a \<noteq> 0
            \<and> studentId (students s a) \<noteq> 0 \<and> studentId (students s a) = sid)
       \<and> (sender e \<noteq> oracleAddress s \<longrightarrow> verifyEligibility e a sid b r s = Inl OnlyOracle)
       \<and> (sender e = oracleAddress s \<and> a = 0
            \<longrightarrow> verifyEligibility e a sid b r s = Inl InvalidStudentAddress)
       \<and> (sender e = oracleAddress s \<and> a \<noteq> 0 \<and> studentId (students s a) \<noteq> sid
            \<longrightarrow> verifyEligibility e a sid b r s = Inl StudentIDMismatch)
       \<and> (isl (verifyEligibility e a sid b r s)
            \<longrightarrow> transact s (VerifyEligibility e a sid b r) = s)"
  using assms by (auto simp: verifyEligibility_def transact_def)

text \<open>In \<open>ready\<close> Alice holds id 7 and the deployer is the oracle. The oracle's call for
  (Alice, 7) goes through; Bob's call is refused; the oracle's call for (Alice, 8) and for
  the unregistered address 3 with id 7 is a mismatch.\<close>

theorem verifyEligibility_checks_witness:
  "(7::nat) \<noteq> 0 \<and> (8::nat) \<noteq> 0
   \<and> sender admin = oracleAddress ready \<and> studentId (students ready 2) = 7
   \<and> \<not> isl (verifyEligibility admin 2 7 False ''GPA: 2.1'' ready)
   \<and> sender bob \<noteq> oracleAddress ready
   \<and> verifyEligibility bob 2 7 True ''GPA: 4.0'' ready = Inl OnlyOracle
   \<and> transact ready (VerifyEligibility bob 2 7 True ''GPA: 4.0'') = ready
   \<and> verifyEligibility admin 2 8 True ''GPA: 4.0'' ready = Inl StudentIDMismatch
   \<and> studentId (students ready 3) = 0
   \<and> verifyEligibility admin 3 7 True ''GPA: 4.0'' ready = Inl StudentIDMismatch
   \<and> verifyEligibility admin 0 7 True ''GPA: 4.0'' ready = Inl InvalidStudentAddress"
proof -
  have seven: "(7::nat) \<noteq> 0" and eight: "(8::nat) \<noteq> 0" by simp_all
  have facts: "sender admin = oracleAddress ready \<and> studentId (students ready 2) = 7
      \<and> sender bob \<noteq> oracleAddress ready \<and> studentId (students ready 3) = 0"
    by (simp add: ready_def ready_calls_def run_defs)
  show ?thesis
    using verifyEligibility_checks [OF seven, of admin 2 False "''GPA: 2.1''" ready]
      verifyEligibility_checks [OF seven, of bob 2 True "''GPA: 4.0''" ready]
      verifyEligibility_checks [OF eight, of admin 2 True "''GPA: 4.0''" ready]
      verifyEligibility_checks [OF seven, of admin 3 True "''GPA: 4.0''" ready]
      verifyEligibility_checks [OF seven, of admin 0 True "''GPA: 4.0''" ready]
      facts
    by simp
qed

text \<open>
  An address that is not registered is not answered with an error of its own: the oracle
  names the unregistered address 3 with student id 5 and gets \<open>StudentIDMismatch\<close>, the
  error of a registered account named with a wrong id.
\<close>

theorem verifyEligibility_counterexample:
  "sender admin = oracleAddress (constructor 1)
   \<and> studentId (students (constructor 1) 3) = 0
   \<and> verifyEligibility admin 3 5 True ''GPA: 3.9'' (constructor 1) = Inl StudentIDMismatch
   \<and> verifyEligibility admin 3 5 True ''GPA: 3.9'' (constructor 1)
        \<noteq> Inl InvalidStudentAddress"
  by (simp add: run_defs)

subsection \<open>Withdrawing\<close>

text \<open>
  C10, as the contract does it. \<^verbatim>\<open>withdrawUnclaimedFunds\<close> names no scholarship. A call that
  goes through was made by the owner for at most the contract's balance. It lowers that
  balance by exactly the amount and then hands control to the owner; it writes no field
  of a scholarship and not \<^verbatim>\<open>totalFunds\<close>. So the balance, the scholarships (remaining
  amount, capacity, claims processed, total and share) and \<^verbatim>\<open>totalFunds\<close> after the call
  are what the calls \<open>cb\<close> of the owner's code make of the state with the lowered balance;
  when the owner's code calls nothing, the balance is lower by exactly the amount and
  every scholarship is as it was. A call of the owner for more than the contract's
  balance reverts with \<open>InsufficientBalance\<close>.
\<close>

theorem withdraw_frame:
  "(dispatch (WithdrawUnclaimedFunds e amount cb) s = Inr s' \<longrightarrow>
      sender e = owner s \<and> amount \<le> balance s
      \<and> balance s' = balance (run (s\<lparr>balance := balance s - amount\<rparr>) cb)
      \<and> scholarships s' = scholarships (run (s\<lparr>balance := balance s - amount\<rparr>) cb)
      \<and> totalFunds s' = totalFunds (run (s\<lparr>balance := balance s - amount\<rparr>) cb))
 \<and> (dispatch (WithdrawUnclaimedFunds e amount []) s = Inr s' \<longrightarrow>
      balance s' = balance s - amount
      \<and> scholarships s' = scholarships s
      \<and> totalFunds s' = totalFunds s)
 \<and> (sender e = owner s \<and> balance s < amount \<longrightarrow>
      dispatch (WithdrawUnclaimedFunds e amount cb) s = Inl InsufficientBalance)"
  by (auto simp: withdrawUnclaimedFunds_def Let_def split: if_splits)

text \<open>The contract holds 100. The owner withdraws 40 and calls nothing: 60 are left. An
  owner whose code withdraws 40 again while it receives the first 40 leaves 20. The owner
  asks for 101.\<close>

theorem withdraw_frame_witness:
  "dispatch (WithdrawUnclaimedFunds admin 40 []) funded
     = Inr (transact funded (WithdrawUnclaimedFunds admin 40 []))
   \<and> balance funded = 100
   \<and> balance (transact funded (WithdrawUnclaimedFunds admin 40 [])) = 60
   \<and> scholarships (transact funded (WithdrawUnclaimedFunds admin 40 [])) = scholarships funded
   \<and> dispatch greedy funded = Inr (transact funded greedy)
   \<and> balance (transact funded greedy) = 20
   \<and> scholarships (transact funded greedy) = scholarships funded
   \<and> sender admin = owner funded \<and> balance funded < 101
   \<and> dispatch (WithdrawUnclaimedFunds admin 101 []) funded = Inl InsufficientBalance"
proof -
  have "\<not> isl (dispatch (WithdrawUnclaimedFunds admin 40 []) funded)"
    by (simp add: funded_def run_defs)
  then have ok: "dispatch (WithdrawUnclaimedFunds admin 40 []) funded
      = Inr (transact funded (WithdrawUnclaimedFunds admin 40 []))"
    by (rule dispatch_committed)
  have "\<not> isl (dispatch greedy funded)"
    by (simp add: greedy_def funded_def run_defs)
  then have "dispatch greedy funded = Inr (transact funded greedy)"
    by (rule dispatch_committed)
  then have ok2: "dispatch (WithdrawUnclaimedFunds admin 40 [WithdrawUnclaimedFunds admin 40 []])
        funded = Inr (transact funded greedy)"
    by (simp add: greedy_def)
  have facts: "balance funded = 100 \<and> sender admin = owner funded"
    by (simp add: funded_def run_defs)
  have nested: "balance (run (funded\<lparr>balance := balance funded - 40\<rparr>)
        [WithdrawUnclaimedFunds admin 40 []]) = 20
      \<and> scholarships (run (funded\<lparr>balance := balance funded - 40\<rparr>)
        [WithdrawUnclaimedFunds admin 40 []]) = scholarships funded"
    by (simp add: funded_def run_defs)
  show ?thesis
    using withdraw_frame [of admin 40 "[]" funded
        "transact funded (WithdrawUnclaimedFunds admin 40 [])"]
      withdraw_frame [of admin 40 "[WithdrawUnclaimedFunds admin 40 []]" funded
        "transact funded greedy"]
      withdraw_frame [of admin 101 "[]" funded funded] ok ok2 facts nested
    by (simp add: greedy_def)
qed

text \<open>
  A withdrawal does not reduce the remaining amount of a scholarship: the owner withdraws
  40 of the 100 that fund scholarship 0, and the scholarship still records 100.
\<close>

theorem withdraw_counterexample:
  "\<not> isl (dispatch (WithdrawUnclaimedFunds admin 40 []) funded)
   \<and> remainingAmount (scholarships funded 0) = 100
   \<and> remainingAmount (scholarships (transact funded (WithdrawUnclaimedFunds admin 40 [])) 0)
        = 100
   \<and> remainingAmount (scholarships (transact funded (WithdrawUnclaimedFunds admin 40 [])) 0)
        \<noteq> remainingAmount (scholarships funded 0) - 40"
  by (simp add: funded_def run_defs)

text \<open>One withdrawal of 40 by an owner whose code withdraws again while it is paid takes
  80 out of the contract.\<close>

lemma greedy_withdraws_twice:
  "balance funded = 100 \<and> balance (transact funded greedy) = 20
   \<and> withdrawn (transact funded greedy) = 80"
  by (simp add: funded_def greedy_def run_defs withdrawn_def)

end
